theory Spec2Isabelle
  imports Main
begin

unbundle bit_operations_syntax

section \<open>Galois-field numbers over bit numbers (task1.py)\<close>

text \<open>
  A shallow embedding of the three classes of \<^verbatim>\<open>task1.py\<close>: \<^verbatim>\<open>BitNumber\<close>,
  \<^verbatim>\<open>GFNumber\<close> and \<^verbatim>\<open>GF8Number\<close>. Python integers are \<^typ>\<open>int\<close>, an exception is
  the left summand of a result, an attribute assignment returns the updated object and a
  \<^verbatim>\<open>for\<close> loop is a recursion over the list of values it ranges over.
\<close>

subsection \<open>Exceptions and the assertion helpers\<close>

text \<open>
  \<^verbatim>\<open>ValueError\<close> carries its message; \<^verbatim>\<open>TypeError\<close> carries the variable name
  of \<^verbatim>\<open>assert_type\<close> (the rest of its message prints the types involved).
\<close>

datatype error = TypeError string | ValueError string

type_synonym 'a result = "error + 'a"

definition assert_value :: "bool \<Rightarrow> string \<Rightarrow> unit result" where
  "assert_value condition condition_as_string =
     (if \<not> condition then Inl (ValueError (''Assertion failed: '' @ condition_as_string))
      else Inr ())"

subsection \<open>The builtins \<^verbatim>\<open>bin\<close>, \<^verbatim>\<open>hex\<close>, \<^verbatim>\<open>str\<close> and \<^verbatim>\<open>rjust\<close>\<close>

definition digit_char :: "nat \<Rightarrow> char" where
  "digit_char d = ''0123456789abcdef'' ! d"

fun digits :: "nat \<Rightarrow> nat \<Rightarrow> string" where
  "digits base n =
     (if base < 2 \<or> n < base then [digit_char n]
      else digits base (n div base) @ [digit_char (n mod base)])"

declare digits.simps [simp del]

definition py_bin :: "int \<Rightarrow> string" where
  "py_bin n = (if n < 0 then ''-0b'' @ digits 2 (nat (- n)) else ''0b'' @ digits 2 (nat n))"

definition py_hex :: "int \<Rightarrow> string" where
  "py_hex n = (if n < 0 then ''-0x'' @ digits 16 (nat (- n)) else ''0x'' @ digits 16 (nat n))"

definition py_str :: "int \<Rightarrow> string" where
  "py_str n = (if n < 0 then ''-'' @ digits 10 (nat (- n)) else digits 10 (nat n))"

definition rjust :: "string \<Rightarrow> nat \<Rightarrow> char \<Rightarrow> string" where
  "rjust s width fillchar = replicate (width - length s) fillchar @ s"

subsection \<open>Objects and dynamically typed arguments\<close>

text \<open>
  \<^verbatim>\<open>BitNumber\<close> has the private attributes \<^verbatim>\<open>__number\<close> and \<^verbatim>\<open>__len\<close>;
  \<^verbatim>\<open>GFNumber\<close> has \<^verbatim>\<open>_number\<close> (a \<^verbatim>\<open>BitNumber\<close>) and \<^verbatim>\<open>_len\<close>, and
  \<^verbatim>\<open>GF8Number\<close> is a subclass with the same attributes, so an object of either class
  records its class.
\<close>

record BitNumber =
  bn_number :: int
  bn_len :: nat

datatype gf_class = GFNumber_cls | GF8Number_cls

record GFNumber =
  gf_class :: gf_class
  gf_number :: BitNumber
  gf_len :: nat

text \<open>
  A Python argument: an \<^verbatim>\<open>int\<close>, a \<^verbatim>\<open>BitNumber\<close>, a \<^verbatim>\<open>GFNumber\<close> (or
  \<^verbatim>\<open>GF8Number\<close>), or an object of any other type.
\<close>

datatype pyval = PyInt int | PyBitNumber BitNumber | PyGFNumber GFNumber | PyOther

datatype py_type = int_t | BitNumber_t | GFNumber_t | GF8Number_t

fun isinstance :: "pyval \<Rightarrow> py_type list \<Rightarrow> bool" where
  "isinstance (PyInt n) ts = (int_t \<in> set ts)"
| "isinstance (PyBitNumber b) ts = (BitNumber_t \<in> set ts)"
| "isinstance (PyGFNumber g) ts =
     (GFNumber_t \<in> set ts \<or> (gf_class g = GF8Number_cls \<and> GF8Number_t \<in> set ts))"
| "isinstance PyOther ts = False"

definition assert_type :: "pyval \<Rightarrow> py_type list \<Rightarrow> string \<Rightarrow> unit result" where
  "assert_type variable types variable_name =
     (if \<not> isinstance variable types then Inl (TypeError variable_name) else Inr ())"

subsection \<open>\<^verbatim>\<open>BitNumber\<close>\<close>

definition BitNumber_init :: "pyval \<Rightarrow> BitNumber result" where
  "BitNumber_init number =
     (case number of
        PyBitNumber b \<Rightarrow> Inr \<lparr>bn_number = bn_number b, bn_len = bn_len b\<rparr>
      | _ \<Rightarrow>
        (case assert_type number [int_t] ''number'' of
           Inl e \<Rightarrow> Inl e
         | Inr _ \<Rightarrow>
           (case number of
              PyInt n \<Rightarrow>
                (case assert_value (n \<ge> 0) ''number >= 0'' of
                   Inl e \<Rightarrow> Inl e
                 | Inr _ \<Rightarrow> Inr \<lparr>bn_number = n, bn_len = length (drop 2 (py_bin n))\<rparr>)
            | _ \<Rightarrow> Inl (TypeError ''number''))))"

definition BitNumber_xor :: "BitNumber \<Rightarrow> pyval \<Rightarrow> BitNumber result" where
  "BitNumber_xor self other =
     (case BitNumber_init other of
        Inl e \<Rightarrow> Inl e
      | Inr other' \<Rightarrow> BitNumber_init (PyInt (bn_number self XOR bn_number other')))"

text \<open>Python raises \<^verbatim>\<open>ValueError: negative shift count\<close> for a negative shift.\<close>

definition BitNumber_rshift :: "BitNumber \<Rightarrow> pyval \<Rightarrow> BitNumber result" where
  "BitNumber_rshift self num =
     (case assert_type num [int_t] ''num'' of
        Inl e \<Rightarrow> Inl e
      | Inr _ \<Rightarrow>
        (case num of
           PyInt k \<Rightarrow>
             (if k < 0 then Inl (ValueError ''negative shift count'')
              else BitNumber_init (PyInt (drop_bit (nat k) (bn_number self))))
         | _ \<Rightarrow> Inl (TypeError ''num'')))"

definition BitNumber_lshift :: "BitNumber \<Rightarrow> pyval \<Rightarrow> BitNumber result" where
  "BitNumber_lshift self num =
     (case assert_type num [int_t] ''num'' of
        Inl e \<Rightarrow> Inl e
      | Inr _ \<Rightarrow>
        (case num of
           PyInt k \<Rightarrow>
             (if k < 0 then Inl (ValueError ''negative shift count'')
              else BitNumber_init (PyInt (push_bit (nat k) (bn_number self))))
         | _ \<Rightarrow> Inl (TypeError ''num'')))"

definition BitNumber_len :: "BitNumber \<Rightarrow> nat" where
  "BitNumber_len self = bn_len self"

definition BitNumber_getitem :: "BitNumber \<Rightarrow> pyval \<Rightarrow> int result" where
  "BitNumber_getitem self index =
     (case assert_type index [int_t] ''index'' of
        Inl e \<Rightarrow> Inl e
      | Inr _ \<Rightarrow>
        (case index of
           PyInt i \<Rightarrow>
             (case assert_value (0 \<le> i \<and> i < int (BitNumber_len self)) ''0 <= index < len(self)'' of
                Inl e \<Rightarrow> Inl e
              | Inr _ \<Rightarrow> Inr (drop_bit (nat i) (bn_number self) mod 2))
         | _ \<Rightarrow> Inl (TypeError ''index'')))"

text \<open>
  The generator \<^verbatim>\<open>__iter__\<close> yields \<^verbatim>\<open>self[i]\<close> for \<^verbatim>\<open>i\<close> in
  \<^verbatim>\<open>range(len(self))\<close>; its consumers run it to the end, so it is the list of the
  bits, or the first exception.
\<close>

fun collect :: "('a \<Rightarrow> 'b result) \<Rightarrow> 'a list \<Rightarrow> 'b list result" where
  "collect f [] = Inr []"
| "collect f (x # xs) =
     (case f x of
        Inl e \<Rightarrow> Inl e
      | Inr y \<Rightarrow> (case collect f xs of Inl e \<Rightarrow> Inl e | Inr ys \<Rightarrow> Inr (y # ys)))"

definition BitNumber_iter :: "BitNumber \<Rightarrow> int list result" where
  "BitNumber_iter self =
     collect (\<lambda>i. BitNumber_getitem self (PyInt (int i))) [0..<BitNumber_len self]"

definition BitNumber_int :: "BitNumber \<Rightarrow> int" where
  "BitNumber_int self = bn_number self"

definition BitNumber_bin :: "BitNumber \<Rightarrow> string" where
  "BitNumber_bin self = py_bin (bn_number self)"

definition BitNumber_hex :: "BitNumber \<Rightarrow> string" where
  "BitNumber_hex self = drop 2 (py_hex (bn_number self))"

definition BitNumber_str :: "BitNumber \<Rightarrow> string" where
  "BitNumber_str self = drop 2 (py_bin (bn_number self))"

subsection \<open>\<^verbatim>\<open>GFNumber\<close>\<close>

text \<open>
  The first argument of \<open>GFNumber_init\<close> is the class of the object under construction:
  \<^verbatim>\<open>GF8Number.__init__\<close> runs this initialiser through \<^verbatim>\<open>super()\<close>.
\<close>

definition GFNumber_init :: "gf_class \<Rightarrow> pyval \<Rightarrow> GFNumber result" where
  "GFNumber_init cls number =
     (case number of
        PyGFNumber g \<Rightarrow>
          (case BitNumber_init (PyBitNumber (gf_number g)) of
             Inl e \<Rightarrow> Inl e
           | Inr b \<Rightarrow> Inr \<lparr>gf_class = cls, gf_number = b, gf_len = BitNumber_len b\<rparr>)
      | _ \<Rightarrow>
        (case assert_type number [int_t, BitNumber_t] ''number'' of
           Inl e \<Rightarrow> Inl e
         | Inr _ \<Rightarrow>
           (case (case number of
                    PyInt n \<Rightarrow>
                      (case assert_value (n \<ge> 0) ''number >= 0'' of
                         Inl e \<Rightarrow> Inl e
                       | Inr _ \<Rightarrow> BitNumber_init (PyInt n))
                  | PyBitNumber b \<Rightarrow> Inr b
                  | _ \<Rightarrow> Inl (TypeError ''number'')) of
              Inl e \<Rightarrow> Inl e
            | Inr b \<Rightarrow>
              (case BitNumber_init (PyBitNumber b) of
                 Inl e \<Rightarrow> Inl e
               | Inr b' \<Rightarrow> Inr \<lparr>gf_class = cls, gf_number = b', gf_len = BitNumber_len b'\<rparr>))))"

definition GFNumber_add :: "GFNumber \<Rightarrow> pyval \<Rightarrow> GFNumber result" where
  "GFNumber_add self other =
     (case GFNumber_init GFNumber_cls other of
        Inl e \<Rightarrow> Inl e
      | Inr other' \<Rightarrow>
        (case BitNumber_xor (gf_number self) (PyBitNumber (gf_number other')) of
           Inl e \<Rightarrow> Inl e
         | Inr r \<Rightarrow> GFNumber_init GFNumber_cls (PyBitNumber r)))"

text \<open>
  The loop of \<^verbatim>\<open>__mul__\<close> over \<^verbatim>\<open>enumerate(other._number)\<close>, with the running
  \<^verbatim>\<open>result_number\<close>.
\<close>

fun mul_loop :: "BitNumber \<Rightarrow> (nat \<times> int) list \<Rightarrow> BitNumber \<Rightarrow> BitNumber result" where
  "mul_loop self_number [] result_number = Inr result_number"
| "mul_loop self_number ((index, bit_i) # rest) result_number =
     (if bit_i \<noteq> 0 then
        (case BitNumber_lshift self_number (PyInt (int index)) of
           Inl e \<Rightarrow> Inl e
         | Inr shifted \<Rightarrow>
           (case BitNumber_xor result_number (PyBitNumber shifted) of
              Inl e \<Rightarrow> Inl e
            | Inr r \<Rightarrow> mul_loop self_number rest r))
      else mul_loop self_number rest result_number)"

definition GFNumber_mul :: "GFNumber \<Rightarrow> pyval \<Rightarrow> GFNumber result" where
  "GFNumber_mul self other =
     (case GFNumber_init GFNumber_cls other of
        Inl e \<Rightarrow> Inl e
      | Inr other' \<Rightarrow>
        (case BitNumber_init (PyInt 0) of
           Inl e \<Rightarrow> Inl e
         | Inr zero \<Rightarrow>
           (case BitNumber_iter (gf_number other') of
              Inl e \<Rightarrow> Inl e
            | Inr bits \<Rightarrow>
              (case mul_loop (gf_number self) (enumerate 0 bits) zero of
                 Inl e \<Rightarrow> Inl e
               | Inr result_number \<Rightarrow> GFNumber_init GFNumber_cls (PyBitNumber result_number)))))"

definition GFNumber_len :: "GFNumber \<Rightarrow> nat" where
  "GFNumber_len self = gf_len self"

definition GFNumber_getitem :: "GFNumber \<Rightarrow> pyval \<Rightarrow> int result" where
  "GFNumber_getitem self index = BitNumber_getitem (gf_number self) index"

definition GFNumber_int :: "GFNumber \<Rightarrow> int" where
  "GFNumber_int self = BitNumber_int (gf_number self)"

definition GFNumber_bin :: "GFNumber \<Rightarrow> string" where
  "GFNumber_bin self = BitNumber_bin (gf_number self)"

definition GFNumber_hex :: "GFNumber \<Rightarrow> string \<Rightarrow> string" where
  "GFNumber_hex self prefix = prefix @ BitNumber_hex (gf_number self)"

text \<open>The loop of \<^verbatim>\<open>__str__\<close>, with the state \<^verbatim>\<open>(str_acc, print_num)\<close>.\<close>

fun str_loop :: "(nat \<times> int) list \<Rightarrow> string \<times> nat \<Rightarrow> string \<times> nat" where
  "str_loop [] st = st"
| "str_loop ((i, bit_i) # rest) (str_acc, print_num) =
     (let power = i in
      if bit_i \<noteq> 0 then
        (let str1 = (if print_num \<noteq> 0 then '' + '' @ str_acc else str_acc);
             print_num1 = print_num + 1;
             str2 = (if power \<noteq> 0
                     then (''x'' @ (if power = 1 then [] else py_str (int power))) @ str1
                     else ''1'' @ str1)
         in str_loop rest (str2, print_num1))
      else str_loop rest (str_acc, print_num))"

definition GFNumber_str :: "GFNumber \<Rightarrow> string result" where
  "GFNumber_str self =
     (case BitNumber_iter (gf_number self) of
        Inl e \<Rightarrow> Inl e
      | Inr bits \<Rightarrow> Inr (fst (str_loop (enumerate 0 bits) ([], 0))))"

subsection \<open>\<^verbatim>\<open>GF8Number\<close>\<close>

definition MAX_BITS :: nat where
  "MAX_BITS = 8"

text \<open>The class attribute \<^verbatim>\<open>BitNumber(0b100011011)\<close>.\<close>

definition SHRINK_MODULO :: BitNumber where
  "SHRINK_MODULO = \<lparr>bn_number = 283, bn_len = length (drop 2 (py_bin 283))\<rparr>"

text \<open>
  The loop of \<^verbatim>\<open>__shrink\<close> over \<^verbatim>\<open>range(len(self) - 1, MAX_BITS - 1, -1)\<close>; the
  range is computed once, from \<^verbatim>\<open>_len\<close>, while \<^verbatim>\<open>self[i]\<close> checks the index
  against the length of the current \<^verbatim>\<open>_number\<close>.
\<close>

fun shrink_loop :: "GFNumber \<Rightarrow> nat list \<Rightarrow> GFNumber result" where
  "shrink_loop self [] = Inr self"
| "shrink_loop self (i # rest) =
     (case GFNumber_getitem self (PyInt (int i)) of
        Inl e \<Rightarrow> Inl e
      | Inr bit_i \<Rightarrow>
        (if bit_i \<noteq> 0 then
           (case BitNumber_lshift SHRINK_MODULO (PyInt (int i - int MAX_BITS)) of
              Inl e \<Rightarrow> Inl e
            | Inr m \<Rightarrow>
              (case BitNumber_xor (gf_number self) (PyBitNumber m) of
                 Inl e \<Rightarrow> Inl e
               | Inr n \<Rightarrow> shrink_loop (self\<lparr>gf_number := n\<rparr>) rest))
         else shrink_loop self rest))"

definition GF8Number_shrink :: "GFNumber \<Rightarrow> (bool \<times> GFNumber) result" where
  "GF8Number_shrink self =
     (if GFNumber_len self \<le> MAX_BITS then Inr (False, self)
      else
        (case shrink_loop self (rev [MAX_BITS..<GFNumber_len self]) of
           Inl e \<Rightarrow> Inl e
         | Inr self' \<Rightarrow> Inr (True, self'\<lparr>gf_len := BitNumber_len (gf_number self')\<rparr>)))"

definition GF8Number_init :: "pyval \<Rightarrow> bool \<Rightarrow> GFNumber result" where
  "GF8Number_init number assert_shrunk =
     (case GFNumber_init GF8Number_cls number of
        Inl e \<Rightarrow> Inl e
      | Inr self \<Rightarrow>
        (case GF8Number_shrink self of
           Inl e \<Rightarrow> Inl e
         | Inr (shrunk, self') \<Rightarrow>
           (if assert_shrunk then
              (case assert_value (shrunk = False) ''shrunk == False'' of
                 Inl e \<Rightarrow> Inl e
               | Inr _ \<Rightarrow> Inr self')
            else Inr self')))"

definition GF8Number_mul :: "GFNumber \<Rightarrow> pyval \<Rightarrow> GFNumber result" where
  "GF8Number_mul self other =
     (case GF8Number_init other True of
        Inl e \<Rightarrow> Inl e
      | Inr other' \<Rightarrow>
        (case GFNumber_mul self (PyGFNumber other') of
           Inl e \<Rightarrow> Inl e
         | Inr product \<Rightarrow>
           (case GF8Number_init (PyGFNumber product) False of
              Inl e \<Rightarrow> Inl e
            | Inr result \<Rightarrow>
              (case GF8Number_shrink result of
                 Inl e \<Rightarrow> Inl e
               | Inr (_, result') \<Rightarrow> Inr result'))))"

definition GF8Number_hex :: "GFNumber \<Rightarrow> string \<Rightarrow> string" where
  "GF8Number_hex self prefix =
     (let hex_str = BitNumber_hex (gf_number self); hex_len = MAX_BITS div 4
      in prefix @ rjust hex_str hex_len CHR ''0'')"

section \<open>Notions used to state the properties\<close>

text \<open>
  The two messages of \<^verbatim>\<open>assert_value\<close> the properties speak about: a bit index out
  of range, and a strict construction that had to reduce its operand.
\<close>

abbreviation index_error :: error where
  "index_error \<equiv> ValueError ''Assertion failed: 0 <= index < len(self)''"

abbreviation shrunk_error :: error where
  "shrunk_error \<equiv> ValueError ''Assertion failed: shrunk == False''"

text \<open>
  \<open>mk_bn n\<close> is the object \<^verbatim>\<open>BitNumber(n)\<close> and \<open>mk_gf c n\<close> the object of class
  \<open>c\<close> that \<^verbatim>\<open>GFNumber.__init__\<close> builds from \<open>n\<close>, for a non-negative \<open>n\<close>
  (lemmas \<open>BitNumber_init_int\<close> and \<open>GFNumber_init_int\<close>). An object is well formed
  when its cached lengths are those of its number.
\<close>

definition mk_bn :: "int \<Rightarrow> BitNumber" where
  "mk_bn n = \<lparr>bn_number = n, bn_len = length (digits 2 (nat n))\<rparr>"

definition mk_gf :: "gf_class \<Rightarrow> int \<Rightarrow> GFNumber" where
  "mk_gf c n = \<lparr>gf_class = c, gf_number = mk_bn n, gf_len = length (digits 2 (nat n))\<rparr>"

definition wf_bn :: "BitNumber \<Rightarrow> bool" where
  "wf_bn b \<longleftrightarrow> 0 \<le> bn_number b \<and> bn_len b = length (digits 2 (nat (bn_number b)))"

definition wf_gf :: "GFNumber \<Rightarrow> bool" where
  "wf_gf g \<longleftrightarrow> wf_bn (gf_number g) \<and> gf_len g = bn_len (gf_number g)"

text \<open>
  The carry-less product that the loop of \<^verbatim>\<open>GFNumber.__mul__\<close> accumulates, and the
  set of index pairs that contribute to its bit \<open>n\<close>.
\<close>

definition clmul_step :: "int \<Rightarrow> int \<Rightarrow> nat \<Rightarrow> int \<Rightarrow> int" where
  "clmul_step a b i r = (if bit b i then r XOR push_bit i a else r)"

definition clmul :: "int \<Rightarrow> int \<Rightarrow> int" where
  "clmul a b = fold (clmul_step a b) [0..<length (digits 2 (nat b))] 0"

definition conv_set :: "int \<Rightarrow> int \<Rightarrow> nat \<Rightarrow> nat set" where
  "conv_set a b n = {i. i \<le> n \<and> bit b i \<and> bit a (n - i)}"

text \<open>
  The rendering of a polynomial as the specification words it: one term for each set bit,
  from the highest to the lowest, joined by \<^verbatim>\<open>" + "\<close>.
\<close>

definition poly_term :: "nat \<Rightarrow> string" where
  "poly_term i = (if i = 0 then ''1'' else if i = 1 then ''x'' else ''x'' @ py_str (int i))"

fun join_sep :: "string \<Rightarrow> string list \<Rightarrow> string" where
  "join_sep sep [] = []"
| "join_sep sep [t] = t"
| "join_sep sep (t # u # ts) = t @ sep @ join_sep sep (u # ts)"

definition poly_render :: "int \<Rightarrow> nat \<Rightarrow> string" where
  "poly_render a n = join_sep '' + '' (map poly_term (rev (filter (bit a) [0..<n])))"

section \<open>Auxiliary lemmas\<close>

lemma length_digits_pos: "0 < length (digits base n)"
  by (subst digits.simps) simp

lemma digits2_upper: "n < 2 ^ length (digits 2 n)"
proof (induction n rule: less_induct)
  case (less n)
  show ?case
  proof (cases "n < 2")
    case True
    then show ?thesis by (subst digits.simps) simp
  next
    case False
    then have "n div 2 < n" by simp
    then have "n div 2 < 2 ^ length (digits 2 (n div 2))" by (rule less.IH)
    then have "n < 2 * 2 ^ length (digits 2 (n div 2))" by linarith
    with False show ?thesis by (subst digits.simps) simp
  qed
qed

lemma digits2_lower: "0 < n \<Longrightarrow> 2 ^ (length (digits 2 n) - 1) \<le> n"
proof (induction n rule: less_induct)
  case (less n)
  show ?case
  proof (cases "n < 2")
    case True
    with less.prems show ?thesis by (subst digits.simps) simp
  next
    case False
    then have "n div 2 < n" "0 < n div 2" by simp_all
    then have "2 ^ (length (digits 2 (n div 2)) - 1) \<le> n div 2" by (rule less.IH)
    then have "2 * 2 ^ (length (digits 2 (n div 2)) - 1) \<le> n" by linarith
    moreover have "0 < length (digits 2 (n div 2))" by (rule length_digits_pos)
    ultimately have "2 ^ length (digits 2 (n div 2)) \<le> n"
      by (cases "length (digits 2 (n div 2))") simp_all
    with False show ?thesis by (subst digits.simps) simp
  qed
qed

lemma length_digits2_le_iff: "0 < k \<Longrightarrow> length (digits 2 n) \<le> k \<longleftrightarrow> n < 2 ^ k"
proof
  assume "length (digits 2 n) \<le> k"
  then have "(2::nat) ^ length (digits 2 n) \<le> 2 ^ k" by simp
  with digits2_upper [of n] show "n < 2 ^ k" by linarith
next
  assume k: "0 < k" and n: "n < 2 ^ k"
  show "length (digits 2 n) \<le> k"
  proof (cases "n = 0")
    case True
    with k show ?thesis by (subst digits.simps) simp
  next
    case False
    then have "2 ^ (length (digits 2 n) - 1) \<le> n" using digits2_lower [of n] by simp
    with n have "(2::nat) ^ (length (digits 2 n) - 1) < 2 ^ k" by linarith
    then have "length (digits 2 n) - 1 < k" by simp
    then show ?thesis by linarith
  qed
qed

lemma BitNumber_init_int: "0 \<le> n \<Longrightarrow> BitNumber_init (PyInt n) = Inr (mk_bn n)"
  by (simp add: BitNumber_init_def assert_type_def assert_value_def py_bin_def mk_bn_def)

lemma BitNumber_init_neg:
  "n < 0 \<Longrightarrow> BitNumber_init (PyInt n) = Inl (ValueError ''Assertion failed: number >= 0'')"
  by (simp add: BitNumber_init_def assert_type_def assert_value_def)

lemma BitNumber_init_copy: "BitNumber_init (PyBitNumber b) = Inr b"
  by (simp add: BitNumber_init_def)

lemma BitNumber_xor_mk:
  "0 \<le> a \<Longrightarrow> 0 \<le> b \<Longrightarrow> bn_number x = a \<Longrightarrow> bn_number y = b \<Longrightarrow> BitNumber_xor x (PyBitNumber y) = Inr (mk_bn (a XOR b))"
  by (simp add: BitNumber_xor_def BitNumber_init_copy BitNumber_init_int)

lemma BitNumber_lshift_mk:
  "0 \<le> bn_number x \<Longrightarrow> BitNumber_lshift x (PyInt (int k)) = Inr (mk_bn (push_bit k (bn_number x)))"
  by (simp add: BitNumber_lshift_def assert_type_def BitNumber_init_int)

lemma GFNumber_init_int: "0 \<le> n \<Longrightarrow> GFNumber_init c (PyInt n) = Inr (mk_gf c n)"
  by (simp add: GFNumber_init_def assert_type_def assert_value_def BitNumber_init_int
      BitNumber_init_copy BitNumber_len_def mk_gf_def mk_bn_def)

lemma GFNumber_init_neg:
  "n < 0 \<Longrightarrow> GFNumber_init c (PyInt n) = Inl (ValueError ''Assertion failed: number >= 0'')"
  by (simp add: GFNumber_init_def assert_type_def assert_value_def)

lemma GFNumber_init_bn:
  "GFNumber_init c (PyBitNumber b) = Inr \<lparr>gf_class = c, gf_number = b, gf_len = bn_len b\<rparr>"
  by (simp add: GFNumber_init_def assert_type_def BitNumber_init_copy BitNumber_len_def)

lemma GFNumber_init_gf:
  "GFNumber_init c (PyGFNumber g) = Inr \<lparr>gf_class = c, gf_number = gf_number g, gf_len = bn_len (gf_number g)\<rparr>"
  by (simp add: GFNumber_init_def BitNumber_init_copy BitNumber_len_def)

lemma GFNumber_init_mk_bn: "GFNumber_init c (PyBitNumber (mk_bn n)) = Inr (mk_gf c n)"
  by (simp add: GFNumber_init_bn mk_gf_def mk_bn_def)

lemma GFNumber_init_mk_gf: "GFNumber_init c (PyGFNumber (mk_gf d n)) = Inr (mk_gf c n)"
  by (simp add: GFNumber_init_gf mk_gf_def mk_bn_def)

lemma collect_map: "(\<And>x. x \<in> set xs \<Longrightarrow> f x = Inr (g x)) \<Longrightarrow> collect f xs = Inr (map g xs)"
  by (induction xs) simp_all

lemma BitNumber_iter_eq:
  "BitNumber_iter b = Inr (map (\<lambda>i. drop_bit i (bn_number b) mod 2) [0..<bn_len b])"
  unfolding BitNumber_iter_def BitNumber_len_def
  by (rule collect_map)
    (simp add: BitNumber_getitem_def assert_type_def assert_value_def BitNumber_len_def)

lemma bit_value_iff: "drop_bit i (n::int) mod 2 \<noteq> 0 \<longleftrightarrow> bit n i"
  by (simp add: bit_iff_odd_drop_bit odd_iff_mod_2_eq_one)

lemma clmul_step_nonneg: "0 \<le> a \<Longrightarrow> 0 \<le> r \<Longrightarrow> 0 \<le> clmul_step a b i r"
  by (simp add: clmul_step_def)

lemma fold_clmul_step_nonneg: "0 \<le> a \<Longrightarrow> 0 \<le> r \<Longrightarrow> 0 \<le> fold (clmul_step a b) xs r"
  by (induction xs arbitrary: r) (simp_all add: clmul_step_nonneg)

lemma clmul_nonneg: "0 \<le> a \<Longrightarrow> 0 \<le> clmul a b"
  by (simp add: clmul_def fold_clmul_step_nonneg)

lemma mk_bn_sel [simp]:
  "bn_number (mk_bn n) = n" "bn_len (mk_bn n) = length (digits 2 (nat n))"
  by (simp_all add: mk_bn_def)

lemma mk_gf_sel [simp]:
  "gf_class (mk_gf c n) = c" "gf_number (mk_gf c n) = mk_bn n"
  "gf_len (mk_gf c n) = length (digits 2 (nat n))"
  by (simp_all add: mk_gf_def)

lemma mul_loop_eq:
  assumes "0 \<le> bn_number s" and "0 \<le> r"
  shows "mul_loop s (map (\<lambda>i. (i, drop_bit i b mod 2)) xs) (mk_bn r) =
           Inr (mk_bn (fold (clmul_step (bn_number s) b) xs r))"
  using assms(2)
proof (induction xs arbitrary: r)
  case Nil
  then show ?case by simp
next
  case (Cons i xs)
  show ?case
  proof (cases "bit b i")
    case True
    then have nz: "drop_bit i b mod 2 \<noteq> 0" using bit_value_iff [of i b] by simp
    have x: "BitNumber_xor (mk_bn r) (PyBitNumber (mk_bn (push_bit i (bn_number s)))) =
        Inr (mk_bn (r XOR push_bit i (bn_number s)))"
      using assms(1) Cons.prems by (intro BitNumber_xor_mk) simp_all
    have "0 \<le> r XOR push_bit i (bn_number s)" using assms(1) Cons.prems by simp
    then show ?thesis
      using nz True x assms(1) by (simp add: BitNumber_lshift_mk Cons.IH clmul_step_def)
  next
    case False
    then have z: "drop_bit i b mod 2 = 0" using bit_value_iff [of i b] by simp
    with False Cons.prems show ?thesis by (simp add: Cons.IH clmul_step_def)
  qed
qed

lemma mul_loop_clmul:
  assumes "0 \<le> a"
  shows "mul_loop (mk_bn a) (map (\<lambda>i. (i, drop_bit i b mod 2)) [0..<length (digits 2 (nat b))])
           (mk_bn 0) = Inr (mk_bn (clmul a b))"
  using mul_loop_eq [of "mk_bn a" 0 b "[0..<length (digits 2 (nat b))]"] assms
  by (simp add: clmul_def)

lemma GFNumber_mul_eq:
  assumes "0 \<le> a" "0 \<le> b" "gf_number x = mk_bn a" "gf_number y = mk_bn b"
  shows "GFNumber_mul x (PyGFNumber y) = Inr (mk_gf GFNumber_cls (clmul a b))"
  using assms
  by (simp add: GFNumber_mul_def GFNumber_init_gf BitNumber_init_int BitNumber_iter_eq
      enumerate_map_upt mul_loop_clmul GFNumber_init_mk_bn)

lemma GFNumber_mul_int_eq:
  assumes "0 \<le> a" "0 \<le> b" "gf_number x = mk_bn a"
  shows "GFNumber_mul x (PyInt b) = Inr (mk_gf GFNumber_cls (clmul a b))"
  using assms
  by (simp add: GFNumber_mul_def GFNumber_init_int BitNumber_init_int BitNumber_iter_eq
      enumerate_map_upt mul_loop_clmul GFNumber_init_mk_bn)

lemma bit_imp_less_length_digits:
  assumes "0 \<le> b" "bit b i"
  shows "i < length (digits 2 (nat b))"
proof (rule ccontr)
  assume "\<not> i < length (digits 2 (nat b))"
  then have "(2::nat) ^ length (digits 2 (nat b)) \<le> 2 ^ i" by simp
  with digits2_upper [of "nat b"] have "nat b < 2 ^ i" by linarith
  with assms(1) have "b < 2 ^ i" by (simp add: nat_less_iff)
  with assms(1) have "b div 2 ^ i = 0" by simp
  with assms(2) show False by (simp add: bit_iff_odd)
qed

lemma bit_fold_clmul_step:
  "bit (fold (clmul_step a b) xs r) n \<longleftrightarrow>
     (bit r n \<noteq> odd (length (filter (\<lambda>i. bit b i \<and> i \<le> n \<and> bit a (n - i)) xs)))"
proof (induction xs arbitrary: r)
  case Nil
  show ?case by simp
next
  case (Cons i xs)
  have "bit (clmul_step a b i r) n \<longleftrightarrow> (bit r n \<noteq> (bit b i \<and> i \<le> n \<and> bit a (n - i)))"
    by (simp add: clmul_step_def bit_xor_iff bit_push_bit_iff)
  then show ?case by (auto simp: Cons.IH)
qed

lemma bit_clmul:
  assumes "0 \<le> b"
  shows "bit (clmul a b) n \<longleftrightarrow> odd (card (conv_set a b n))"
proof -
  have "{i. bit b i \<and> i \<le> n \<and> bit a (n - i)} \<inter> {0..<length (digits 2 (nat b))} = conv_set a b n"
    using bit_imp_less_length_digits [OF assms] by (auto simp: conv_set_def)
  then show ?thesis
    by (simp add: clmul_def bit_fold_clmul_step distinct_length_filter)
qed

lemma conv_set_flip: "conv_set b a n = (\<lambda>i. n - i) ` conv_set a b n"
proof (intro set_eqI iffI)
  fix j assume "j \<in> conv_set b a n"
  then have "n - j \<in> conv_set a b n" "j = n - (n - j)" by (simp_all add: conv_set_def)
  then show "j \<in> (\<lambda>i. n - i) ` conv_set a b n" by (rule_tac image_eqI)
next
  fix j assume "j \<in> (\<lambda>i. n - i) ` conv_set a b n"
  then show "j \<in> conv_set b a n" by (auto simp: conv_set_def)
qed

lemma card_conv_set_flip: "card (conv_set b a n) = card (conv_set a b n)"
proof -
  have "inj_on (\<lambda>i. n - i) (conv_set a b n)"
    by (rule inj_onI) (auto simp: conv_set_def)
  then have "card ((\<lambda>i. n - i) ` conv_set a b n) = card (conv_set a b n)"
    by (rule card_image)
  then show ?thesis by (simp only: conv_set_flip [of b a n])
qed

lemma clmul_commute:
  assumes "0 \<le> a" "0 \<le> b"
  shows "clmul a b = clmul b a"
  by (rule bit_eqI) (simp add: bit_clmul assms card_conv_set_flip)

lemma GFNumber_init_int_Inr:
  assumes "GFNumber_init c (PyInt a) = Inr x"
  shows "0 \<le> a \<and> x = mk_gf c a"
proof (cases "0 \<le> a")
  case True
  with assms show ?thesis by (simp add: GFNumber_init_int)
next
  case False
  then have "a < 0" by simp
  with assms show ?thesis by (simp add: GFNumber_init_neg)
qed

lemma GFNumber_add_mk:
  assumes "0 \<le> a" "0 \<le> b" "gf_number x = mk_bn a" "gf_number y = mk_bn b"
  shows "GFNumber_add x (PyGFNumber y) = Inr (mk_gf GFNumber_cls (a XOR b))"
proof -
  have "BitNumber_xor (mk_bn a) (PyBitNumber (mk_bn b)) = Inr (mk_bn (a XOR b))"
    using assms(1,2) by (intro BitNumber_xor_mk) simp_all
  then show ?thesis
    using assms(3,4) by (simp add: GFNumber_add_def GFNumber_init_gf GFNumber_init_mk_bn)
qed

lemma length_digits2_int_le_iff:
  "0 \<le> a \<Longrightarrow> 0 < k \<Longrightarrow> length (digits 2 (nat a)) \<le> k \<longleftrightarrow> a < 2 ^ k"
  by (simp add: length_digits2_le_iff nat_less_iff)

lemma GF8Number_shrink_small: "gf_len g \<le> 8 \<Longrightarrow> GF8Number_shrink g = Inr (False, g)"
  by (simp add: GF8Number_shrink_def GFNumber_len_def MAX_BITS_def)

lemma GF8Number_shrink_big:
  "8 < gf_len g \<Longrightarrow>
     (\<exists>e. GF8Number_shrink g = Inl e) \<or> (\<exists>g'. GF8Number_shrink g = Inr (True, g'))"
  by (simp add: GF8Number_shrink_def GFNumber_len_def MAX_BITS_def split: sum.splits)

lemma GF8Number_init_small:
  assumes "0 \<le> n" "n < 256"
  shows "GF8Number_init (PyInt n) s = Inr (mk_gf GF8Number_cls n)"
proof -
  have "length (digits 2 (nat n)) \<le> 8"
    using assms length_digits2_int_le_iff [of n 8] by simp
  then have "GF8Number_shrink (mk_gf GF8Number_cls n) = Inr (False, mk_gf GF8Number_cls n)"
    by (intro GF8Number_shrink_small) simp
  with assms(1) show ?thesis
    by (simp add: GF8Number_init_def GFNumber_init_int assert_value_def)
qed

lemma GF8Number_init_big_strict:
  assumes "256 \<le> n"
  shows "(\<exists>e. GF8Number_init (PyInt n) False = Inl e \<and> GF8Number_init (PyInt n) True = Inl e) \<or>
         (\<exists>g. GF8Number_init (PyInt n) False = Inr g \<and>
              GF8Number_init (PyInt n) True = Inl shrunk_error)"
proof -
  have n: "0 \<le> n" using assms by simp
  have "\<not> length (digits 2 (nat n)) \<le> 8"
    using assms length_digits2_int_le_iff [of n 8] n by simp
  then have "8 < gf_len (mk_gf GF8Number_cls n)" by simp
  from GF8Number_shrink_big [OF this] show ?thesis
    using n by (auto simp: GF8Number_init_def GFNumber_init_int assert_value_def)
qed

lemma GF8Number_init_neg:
  "n < 0 \<Longrightarrow> GF8Number_init (PyInt n) s = Inl (ValueError ''Assertion failed: number >= 0'')"
  by (simp add: GF8Number_init_def GFNumber_init_neg)

lemma wf_bn_mk_bn: "0 \<le> n \<Longrightarrow> wf_bn (mk_bn n)"
  by (simp add: wf_bn_def)

lemma wf_bn_eq: "wf_bn b \<Longrightarrow> b = mk_bn (bn_number b)"
  by (simp add: wf_bn_def mk_bn_def)

lemma wf_gf_mk_gf: "0 \<le> n \<Longrightarrow> wf_gf (mk_gf c n)"
  by (simp add: wf_gf_def wf_bn_mk_bn)

lemma shrink_loop_number:
  assumes "shrink_loop g xs = Inr g'" "wf_bn (gf_number g)"
  shows "gf_class g' = gf_class g \<and> wf_bn (gf_number g')"
  using assms
proof (induction xs arbitrary: g)
  case Nil
  then show ?case by simp
next
  case (Cons i xs)
  from Cons.prems(1) obtain bit_i where b: "GFNumber_getitem g (PyInt (int i)) = Inr bit_i"
    by (auto split: sum.splits)
  show ?case
  proof (cases "bit_i \<noteq> 0")
    case False
    with Cons.prems b have "shrink_loop g xs = Inr g'" by simp
    from Cons.IH [OF this Cons.prems(2)] show ?thesis .
  next
    case True
    with Cons.prems(1) b obtain m n where
      m: "BitNumber_lshift SHRINK_MODULO (PyInt (int i - int MAX_BITS)) = Inr m" and
      n: "BitNumber_xor (gf_number g) (PyBitNumber m) = Inr n" and
      r: "shrink_loop (g\<lparr>gf_number := n\<rparr>) xs = Inr g'"
      by (auto split: sum.splits)
    have m0: "0 \<le> bn_number m"
      using m by (auto simp: BitNumber_lshift_def assert_type_def BitNumber_init_int
          SHRINK_MODULO_def split: if_splits)
    have g0: "0 \<le> bn_number (gf_number g)" using Cons.prems(2) by (simp add: wf_bn_def)
    have "BitNumber_xor (gf_number g) (PyBitNumber m) =
        Inr (mk_bn (bn_number (gf_number g) XOR bn_number m))"
      using g0 m0 by (intro BitNumber_xor_mk) simp_all
    with n have n': "n = mk_bn (bn_number (gf_number g) XOR bn_number m)" by simp
    have "0 \<le> bn_number (gf_number g) XOR bn_number m" using g0 m0 by simp
    then have "wf_bn n" unfolding n' by (rule wf_bn_mk_bn)
    then have "wf_bn (gf_number (g\<lparr>gf_number := n\<rparr>))" by simp
    from Cons.IH [OF r this] show ?thesis by simp
  qed
qed

lemma GF8Number_shrink_wf:
  assumes "GF8Number_shrink g = Inr (u, g')" "wf_gf g"
  shows "wf_gf g' \<and> gf_class g' = gf_class g"
proof (cases "GFNumber_len g \<le> MAX_BITS")
  case True
  with assms show ?thesis by (simp add: GF8Number_shrink_def)
next
  case False
  with assms(1) obtain h where h: "shrink_loop g (rev [MAX_BITS..<GFNumber_len g]) = Inr h"
    and g': "g' = h\<lparr>gf_len := BitNumber_len (gf_number h)\<rparr>"
    by (auto simp: GF8Number_shrink_def split: sum.splits)
  have "wf_bn (gf_number g)" using assms(2) by (simp add: wf_gf_def)
  from shrink_loop_number [OF h this] show ?thesis
    by (simp add: g' wf_gf_def BitNumber_len_def)
qed

lemma GF8Number_init_Inr:
  assumes "GF8Number_init v s = Inr g"
  shows "\<exists>g0 u. GFNumber_init GF8Number_cls v = Inr g0 \<and> GF8Number_shrink g0 = Inr (u, g)"
proof (cases "GFNumber_init GF8Number_cls v")
  case (Inl e)
  with assms show ?thesis by (simp add: GF8Number_init_def)
next
  case g0: (Inr g0)
  show ?thesis
  proof (cases "GF8Number_shrink g0")
    case (Inl e)
    with assms g0 show ?thesis by (simp add: GF8Number_init_def)
  next
    case p: (Inr p)
    obtain u g1 where ug: "p = (u, g1)" by (cases p)
    have "g1 = g"
    proof (cases s)
      case True
      with assms g0 p ug show ?thesis
        by (cases u) (simp_all add: GF8Number_init_def assert_value_def)
    next
      case False
      with assms g0 p ug show ?thesis by (simp add: GF8Number_init_def)
    qed
    with g0 p ug show ?thesis by simp
  qed
qed

lemma GF8Number_init_wf:
  assumes "GF8Number_init (PyInt n) s = Inr g"
  shows "wf_gf g \<and> gf_class g = GF8Number_cls"
proof -
  from GF8Number_init_Inr [OF assms] obtain g0 u where
    g0: "GFNumber_init GF8Number_cls (PyInt n) = Inr g0" and u: "GF8Number_shrink g0 = Inr (u, g)"
    by blast
  from g0 have n: "0 \<le> n" "g0 = mk_gf GF8Number_cls n" using GFNumber_init_int_Inr by blast+
  have "wf_gf g0" unfolding n(2) using n(1) by (rule wf_gf_mk_gf)
  from GF8Number_shrink_wf [OF u this] n(2) show ?thesis by simp
qed

lemma GF8Number_mul_small:
  assumes "0 \<le> a" "0 \<le> b" "b < 256" "gf_number x = mk_bn a"
  shows "GF8Number_mul x (PyInt b) =
     (case GF8Number_init (PyGFNumber (mk_gf GFNumber_cls (clmul a b))) False of
        Inl e \<Rightarrow> Inl e
      | Inr result \<Rightarrow>
          (case GF8Number_shrink result of Inl e \<Rightarrow> Inl e | Inr (u, result') \<Rightarrow> Inr result'))"
proof -
  have "GFNumber_mul x (PyGFNumber (mk_gf GF8Number_cls b)) = Inr (mk_gf GFNumber_cls (clmul a b))"
    using assms by (intro GFNumber_mul_eq) simp_all
  then show ?thesis
    using assms(2,3) by (simp add: GF8Number_mul_def GF8Number_init_small)
qed

lemma join_sep_Cons:
  "join_sep sep (t # ts) = (if ts = [] then t else t @ sep @ join_sep sep ts)"
  by (cases ts) simp_all

lemma str_loop_step_set:
  "bit_i \<noteq> 0 \<Longrightarrow>
   str_loop ((i, bit_i) # rest) (s, k) =
     str_loop rest (poly_term i @ (if k \<noteq> 0 then '' + '' @ s else s), k + 1)"
  by (simp add: Let_def poly_term_def)

lemma str_loop_step_clear: "str_loop ((i, 0) # rest) (s, k) = str_loop rest (s, k)"
  by simp

lemma str_loop_eq:
  "str_loop (map (\<lambda>i. (i, drop_bit i a mod 2)) xs)
       (join_sep '' + '' (map poly_term (rev acc)), length acc) =
     (join_sep '' + '' (map poly_term (rev (acc @ filter (bit a) xs))),
      length (acc @ filter (bit a) xs))"
proof (induction xs arbitrary: acc)
  case Nil
  show ?case by simp
next
  case (Cons i xs)
  let ?f = "\<lambda>i. (i, drop_bit i a mod 2)"
  let ?J = "\<lambda>ys. join_sep '' + '' (map poly_term (rev ys))"
  show ?case
  proof (cases "bit a i")
    case False
    then have z: "drop_bit i a mod 2 = 0" using bit_value_iff [of i a] by simp
    have "str_loop (map ?f (i # xs)) (?J acc, length acc) =
        str_loop (map ?f xs) (?J acc, length acc)"
      by (simp only: list.map z str_loop_step_clear)
    also have "\<dots> = (?J (acc @ filter (bit a) xs), length (acc @ filter (bit a) xs))"
      by (rule Cons.IH)
    finally show ?thesis using False by simp
  next
    case True
    then have nz: "drop_bit i a mod 2 \<noteq> 0" using bit_value_iff [of i a] by simp
    have j: "(poly_term i @ (if length acc \<noteq> 0 then '' + '' @ ?J acc else ?J acc), length acc + 1) =
        (?J (acc @ [i]), length (acc @ [i]))"
      by (cases "acc = []") (simp_all add: join_sep_Cons)
    have "str_loop (map ?f (i # xs)) (?J acc, length acc) =
        str_loop (map ?f xs)
          (poly_term i @ (if length acc \<noteq> 0 then '' + '' @ ?J acc else ?J acc), length acc + 1)"
      unfolding list.map by (rule str_loop_step_set [OF nz])
    also have "\<dots> = str_loop (map ?f xs) (?J (acc @ [i]), length (acc @ [i]))"
      by (simp only: j)
    also have "\<dots> = (?J ((acc @ [i]) @ filter (bit a) xs), length ((acc @ [i]) @ filter (bit a) xs))"
      by (rule Cons.IH)
    finally show ?thesis using True by simp
  qed
qed

lemma GFNumber_str_mk_gf:
  "GFNumber_str (mk_gf c a) = Inr (poly_render a (length (digits 2 (nat a))))"
  using str_loop_eq [of a "[0..<length (digits 2 (nat a))]" "[]"]
  by (simp add: GFNumber_str_def BitNumber_iter_eq enumerate_map_upt poly_render_def)

lemma poly_render_zero: "poly_render 0 n = []"
  by (simp add: poly_render_def)

text \<open>
  When the reduction scan does return, it has cleared every bit from position 8 up, so a
  multiplication that returns does return an object of at most 8 bits.
\<close>

lemma not_bit_of_less_pow:
  assumes "0 \<le> (v::int)" "v < 2 ^ n" "n \<le> j"
  shows "\<not> bit v j"
proof -
  have "(2::int) ^ n \<le> 2 ^ j" using assms(3) by simp
  with assms(2) have "v < 2 ^ j" by linarith
  with assms(1) have "v div 2 ^ j = 0" by simp
  then show ?thesis by (simp add: bit_iff_odd)
qed

lemma less_pow_of_no_high_bits:
  assumes "0 \<le> (r::int)" "\<And>j. n \<le> j \<Longrightarrow> \<not> bit r j"
  shows "r < 2 ^ n"
proof -
  have "bit (take_bit n r) j \<longleftrightarrow> bit r j" for j
    using assms(2) [of j] by (cases "n \<le> j") (simp_all add: bit_take_bit_iff)
  then have "take_bit n r = r" by (rule bit_eqI)
  moreover have "take_bit n r < 2 ^ n" by simp
  ultimately show ?thesis by simp
qed

lemma shrink_step_bound:
  assumes "0 \<le> (v::int)" "v < 2 ^ Suc k" "8 \<le> k"
  shows "(if bit v k then v XOR push_bit (k - 8) 283 else v) < 2 ^ k"
proof -
  let ?m = "push_bit (k - 8) (283::int)"
  have m8: "bit (283::int) 8" by (simp add: bit_iff_odd)
  have mk: "bit ?m k" using assms(3) m8 by (simp add: bit_push_bit_iff)
  have mj: "\<not> bit ?m j" if "Suc k \<le> j" for j
  proof -
    have "9 \<le> j - (k - 8)" using that assms(3) by linarith
    then have "\<not> bit (283::int) (j - (k - 8))"
      by (intro not_bit_of_less_pow [of 283 9]) simp_all
    then show ?thesis by (simp add: bit_push_bit_iff)
  qed
  have vj: "\<not> bit v j" if "Suc k \<le> j" for j
    using assms(1,2) that by (rule not_bit_of_less_pow)
  show ?thesis
  proof (cases "bit v k")
    case True
    have "v XOR ?m < 2 ^ k"
    proof (rule less_pow_of_no_high_bits)
      show "0 \<le> v XOR ?m" using assms(1) by simp
    next
      fix j assume "k \<le> j"
      then consider "j = k" | "Suc k \<le> j" by linarith
      then show "\<not> bit (v XOR ?m) j"
      proof cases
        case 1
        with True mk show ?thesis by (simp add: bit_xor_iff)
      next
        case 2
        with vj mj show ?thesis by (simp add: bit_xor_iff)
      qed
    qed
    with True show ?thesis by simp
  next
    case False
    have "v < 2 ^ k"
    proof (rule less_pow_of_no_high_bits)
      show "0 \<le> v" by (rule assms(1))
    next
      fix j assume "k \<le> j"
      then consider "j = k" | "Suc k \<le> j" by linarith
      then show "\<not> bit v j" using False vj by cases simp_all
    qed
    with False show ?thesis by simp
  qed
qed

lemma shrink_loop_step:
  assumes "shrink_loop g (i # rest) = Inr g'" "wf_bn (gf_number g)" "8 \<le> i"
  shows "\<exists>h. shrink_loop h rest = Inr g' \<and> wf_bn (gf_number h) \<and>
             bn_number (gf_number h) =
               (if bit (bn_number (gf_number g)) i
                then bn_number (gf_number g) XOR push_bit (i - 8) 283
                else bn_number (gf_number g))"
proof -
  let ?v = "bn_number (gf_number g)"
  have v0: "0 \<le> ?v" using assms(2) by (simp add: wf_bn_def)
  from assms(1) obtain bit_i where b: "GFNumber_getitem g (PyInt (int i)) = Inr bit_i"
    by (auto split: sum.splits)
  then have bv: "bit_i = drop_bit i ?v mod 2"
    by (auto simp: GFNumber_getitem_def BitNumber_getitem_def assert_type_def assert_value_def
        split: if_splits)
  show ?thesis
  proof (cases "bit ?v i")
    case False
    then have "bit_i = 0" using bit_value_iff [of i ?v] bv by simp
    with assms(1) b have "shrink_loop g rest = Inr g'" by simp
    with assms(2) False show ?thesis by auto
  next
    case True
    then have nz: "bit_i \<noteq> 0" using bit_value_iff [of i ?v] bv by simp
    have "int i - int MAX_BITS = int (i - 8)" using assms(3) by (simp add: MAX_BITS_def)
    then have m: "BitNumber_lshift SHRINK_MODULO (PyInt (int i - int MAX_BITS)) =
        Inr (mk_bn (push_bit (i - 8) 283))"
      using BitNumber_lshift_mk [of SHRINK_MODULO "i - 8"] by (simp add: SHRINK_MODULO_def)
    have x: "BitNumber_xor (gf_number g) (PyBitNumber (mk_bn (push_bit (i - 8) 283))) =
        Inr (mk_bn (?v XOR push_bit (i - 8) 283))"
      using v0 by (intro BitNumber_xor_mk) simp_all
    from assms(1) b nz m x
    have r: "shrink_loop (g\<lparr>gf_number := mk_bn (?v XOR push_bit (i - 8) 283)\<rparr>) rest = Inr g'"
      by simp
    have "wf_bn (mk_bn (?v XOR push_bit (i - 8) 283))" using v0 by (intro wf_bn_mk_bn) simp
    with r True show ?thesis
      by (intro exI [of _ "g\<lparr>gf_number := mk_bn (?v XOR push_bit (i - 8) 283)\<rparr>"]) simp
  qed
qed

lemma shrink_loop_bound:
  assumes "shrink_loop g (rev [8..<k]) = Inr g'" "wf_bn (gf_number g)"
    "bn_number (gf_number g) < 2 ^ k" "8 \<le> k"
  shows "bn_number (gf_number g') < 2 ^ 8"
  using assms
proof (induction k arbitrary: g)
  case 0
  then show ?case by simp
next
  case (Suc k)
  show ?case
  proof (cases "8 \<le> k")
    case False
    with Suc.prems(4) have "Suc k = 8" by linarith
    with Suc.prems(1,3) show ?thesis by simp
  next
    case True
    then have "rev [8..<Suc k] = k # rev [8..<k]" by simp
    with Suc.prems(1) have "shrink_loop g (k # rev [8..<k]) = Inr g'" by simp
    from shrink_loop_step [OF this Suc.prems(2) True] obtain h where
      h: "shrink_loop h (rev [8..<k]) = Inr g'" "wf_bn (gf_number h)" and
      hv: "bn_number (gf_number h) =
               (if bit (bn_number (gf_number g)) k
                then bn_number (gf_number g) XOR push_bit (k - 8) 283
                else bn_number (gf_number g))"
      by blast
    have "0 \<le> bn_number (gf_number g)" using Suc.prems(2) by (simp add: wf_bn_def)
    from shrink_step_bound [OF this Suc.prems(3) True] hv
    have "bn_number (gf_number h) < 2 ^ k" by simp
    from Suc.IH [OF h this True] show ?thesis .
  qed
qed

lemma GF8Number_shrink_bound:
  assumes "GF8Number_shrink g = Inr (u, g')" "wf_gf g"
  shows "GFNumber_len g' \<le> MAX_BITS"
proof (cases "GFNumber_len g \<le> MAX_BITS")
  case True
  with assms show ?thesis by (simp add: GF8Number_shrink_def)
next
  case False
  with assms(1) obtain h where h: "shrink_loop g (rev [8..<gf_len g]) = Inr h"
    and g': "g' = h\<lparr>gf_len := BitNumber_len (gf_number h)\<rparr>"
    by (auto simp: GF8Number_shrink_def MAX_BITS_def GFNumber_len_def split: sum.splits)
  have w: "wf_bn (gf_number g)" and l: "gf_len g = length (digits 2 (nat (bn_number (gf_number g))))"
    using assms(2) by (simp_all add: wf_gf_def wf_bn_def)
  have v0: "0 \<le> bn_number (gf_number g)" using w by (simp add: wf_bn_def)
  have "nat (bn_number (gf_number g)) < 2 ^ gf_len g" unfolding l by (rule digits2_upper)
  with v0 have b: "bn_number (gf_number g) < 2 ^ gf_len g" by (simp add: nat_less_iff)
  have k: "8 \<le> gf_len g" using False by (simp add: GFNumber_len_def MAX_BITS_def)
  from shrink_loop_bound [OF h w b k] have hb: "bn_number (gf_number h) < 2 ^ 8" .
  from shrink_loop_number [OF h w] have hw: "wf_bn (gf_number h)" by simp
  then have "0 \<le> bn_number (gf_number h)"
    "bn_len (gf_number h) = length (digits 2 (nat (bn_number (gf_number h))))"
    by (simp_all add: wf_bn_def)
  with hb have "bn_len (gf_number h) \<le> 8"
    using length_digits2_int_le_iff [of "bn_number (gf_number h)" 8] by simp
  then show ?thesis by (simp add: g' GFNumber_len_def BitNumber_len_def MAX_BITS_def)
qed

lemma GF8Number_mul_returns_reduced:
  assumes "GF8Number_mul x (PyInt b) = Inr r" "wf_gf x"
  shows "wf_gf r \<and> gf_class r = GF8Number_cls \<and> GFNumber_len r \<le> MAX_BITS"
proof -
  from assms(1) obtain y p q u where
    y: "GF8Number_init (PyInt b) True = Inr y" and
    p: "GFNumber_mul x (PyGFNumber y) = Inr p" and
    q: "GF8Number_init (PyGFNumber p) False = Inr q" and
    r: "GF8Number_shrink q = Inr (u, r)"
    by (auto simp: GF8Number_mul_def split: sum.splits)
  from GF8Number_init_wf [OF y] have wy: "wf_bn (gf_number y)" by (simp add: wf_gf_def)
  have wx: "wf_bn (gf_number x)" using assms(2) by (simp add: wf_gf_def)
  let ?a = "bn_number (gf_number x)" and ?b = "bn_number (gf_number y)"
  have a0: "0 \<le> ?a" and b0: "0 \<le> ?b" using wx wy by (simp_all add: wf_bn_def)
  have "GFNumber_mul x (PyGFNumber y) = Inr (mk_gf GFNumber_cls (clmul ?a ?b))"
    using a0 b0 wf_bn_eq [OF wx] wf_bn_eq [OF wy] by (rule GFNumber_mul_eq)
  with p have pe: "p = mk_gf GFNumber_cls (clmul ?a ?b)" by simp
  from GF8Number_init_Inr [OF q] obtain g0 u0 where
    g0: "GFNumber_init GF8Number_cls (PyGFNumber p) = Inr g0" and
    s0: "GF8Number_shrink g0 = Inr (u0, q)"
    by blast
  from g0 have "g0 = mk_gf GF8Number_cls (clmul ?a ?b)"
    unfolding pe by (simp add: GFNumber_init_mk_gf)
  moreover have "0 \<le> clmul ?a ?b" using a0 by (rule clmul_nonneg)
  ultimately have w0: "wf_gf g0" and c0: "gf_class g0 = GF8Number_cls"
    by (simp_all add: wf_gf_mk_gf)
  from GF8Number_shrink_wf [OF s0 w0] c0 have wq: "wf_gf q" and cq: "gf_class q = GF8Number_cls"
    by simp_all
  from GF8Number_shrink_wf [OF r wq] cq GF8Number_shrink_bound [OF r wq]
  show ?thesis by simp
qed

text \<open>The definitions that evaluate the model on concrete inputs.\<close>

lemmas model_defs = GF8Number_mul_def GF8Number_init_def GF8Number_shrink_def GFNumber_init_def
  GFNumber_mul_def GFNumber_add_def GFNumber_len_def GFNumber_getitem_def GFNumber_int_def
  GFNumber_str_def GF8Number_hex_def GFNumber_hex_def
  BitNumber_init_def BitNumber_xor_def BitNumber_lshift_def BitNumber_len_def
  BitNumber_getitem_def BitNumber_iter_def BitNumber_int_def BitNumber_hex_def
  assert_value_def assert_type_def py_bin_def py_hex_def py_str_def rjust_def digit_char_def
  SHRINK_MODULO_def MAX_BITS_def digits.simps upt_rec

section \<open>The properties\<close>

subsection \<open>Reduction after multiplication\<close>

text \<open>
  C2. For the 8-bit operands \<open>32 = x^5\<close> and \<open>128 = x^7\<close> the multiplication
  \<^verbatim>\<open>GF8Number(32) * 128\<close> raises the \<^verbatim>\<open>ValueError\<close> of the bit indexer inside the
  reduction scan. The unreduced product is \<open>4096\<close>, of length 13; the scan reads bit 12,
  which is set, and XORs the modulus shifted by 4 into the number, which becomes \<open>432\<close>, of
  length 9; the next index of the range is 11, which is no longer below the length of
  the number, so the indexer rejects it and the exception leaves \<^verbatim>\<open>__shrink\<close>, the
  constructor and \<^verbatim>\<open>__mul__\<close>.
\<close>

theorem GF8Number_mul_32_128_index_error:
  "GF8Number_init (PyInt 32) False =
     Inr \<lparr>gf_class = GF8Number_cls, gf_number = \<lparr>bn_number = 32, bn_len = 6\<rparr>, gf_len = 6\<rparr> \<and>
   GF8Number_init (PyInt 128) True =
     Inr \<lparr>gf_class = GF8Number_cls, gf_number = \<lparr>bn_number = 128, bn_len = 8\<rparr>, gf_len = 8\<rparr> \<and>
   GFNumber_mul
       \<lparr>gf_class = GF8Number_cls, gf_number = \<lparr>bn_number = 32, bn_len = 6\<rparr>, gf_len = 6\<rparr>
       (PyGFNumber
         \<lparr>gf_class = GF8Number_cls, gf_number = \<lparr>bn_number = 128, bn_len = 8\<rparr>, gf_len = 8\<rparr>) =
     Inr \<lparr>gf_class = GFNumber_cls, gf_number = \<lparr>bn_number = 4096, bn_len = 13\<rparr>, gf_len = 13\<rparr> \<and>
   GFNumber_getitem
       \<lparr>gf_class = GF8Number_cls, gf_number = \<lparr>bn_number = 4096, bn_len = 13\<rparr>, gf_len = 13\<rparr>
       (PyInt 12) = Inr 1 \<and>
   BitNumber_lshift SHRINK_MODULO (PyInt (12 - int MAX_BITS)) =
     Inr \<lparr>bn_number = 4528, bn_len = 13\<rparr> \<and>
   BitNumber_xor \<lparr>bn_number = 4096, bn_len = 13\<rparr> (PyBitNumber \<lparr>bn_number = 4528, bn_len = 13\<rparr>) =
     Inr \<lparr>bn_number = 432, bn_len = 9\<rparr> \<and>
   GFNumber_getitem
       \<lparr>gf_class = GF8Number_cls, gf_number = \<lparr>bn_number = 432, bn_len = 9\<rparr>, gf_len = 13\<rparr>
       (PyInt 11) = Inl index_error \<and>
   GF8Number_shrink
       \<lparr>gf_class = GF8Number_cls, gf_number = \<lparr>bn_number = 4096, bn_len = 13\<rparr>, gf_len = 13\<rparr> =
     Inl index_error \<and>
   GF8Number_mul
       \<lparr>gf_class = GF8Number_cls, gf_number = \<lparr>bn_number = 32, bn_len = 6\<rparr>, gf_len = 6\<rparr>
       (PyInt 128) = Inl index_error"
  by (simp add: model_defs)

text \<open>
  C1. The specification asks that the product of two 8-bit operands has at most 8 bits.
  For the operands \<open>4\<close> and \<open>128\<close> the code returns no product at all: the unreduced
  product is \<open>512\<close>, the first XOR of the scan leaves \<open>54\<close>, of length 6, and reading
  bit 8 raises. (A multiplication that does return has a result of at most 8 bits:
  lemma \<open>GF8Number_mul_returns_reduced\<close>.)
\<close>

theorem GF8Number_mul_4_128_not_closed:
  "GF8Number_init (PyInt 4) False =
     Inr \<lparr>gf_class = GF8Number_cls, gf_number = \<lparr>bn_number = 4, bn_len = 3\<rparr>, gf_len = 3\<rparr> \<and>
   GF8Number_mul
       \<lparr>gf_class = GF8Number_cls, gf_number = \<lparr>bn_number = 4, bn_len = 3\<rparr>, gf_len = 3\<rparr>
       (PyInt 128) = Inl index_error"
  by (simp add: model_defs)

subsection \<open>The zero bit number\<close>

text \<open>
  C3, as stated, fails: \<^verbatim>\<open>BitNumber(0)\<close> takes its length from \<^verbatim>\<open>bin(0)\<close>, which
  is \<^verbatim>\<open>0b0\<close>, so the length is 1 and not 0, the iteration is not empty and bit 0 can be
  read.
\<close>

theorem BitNumber_zero_has_one_bit:
  "BitNumber_init (PyInt 0) = Inr \<lparr>bn_number = 0, bn_len = 1\<rparr> \<and>
   BitNumber_len \<lparr>bn_number = 0, bn_len = 1\<rparr> \<noteq> 0 \<and>
   BitNumber_iter \<lparr>bn_number = 0, bn_len = 1\<rparr> \<noteq> Inr [] \<and>
   BitNumber_getitem \<lparr>bn_number = 0, bn_len = 1\<rparr> (PyInt 0) \<noteq> Inl index_error"
  by (simp add: model_defs)

text \<open>
  C3, amended. \<^verbatim>\<open>BitNumber(0)\<close> has length 1, iterating over it yields the single
  bit 0, reading bit 0 returns 0, and reading at any other index fails with the error of
  the indexer.
\<close>

theorem BitNumber_zero_single_bit:
  "BitNumber_init (PyInt 0) = Inr \<lparr>bn_number = 0, bn_len = 1\<rparr> \<and>
   BitNumber_len \<lparr>bn_number = 0, bn_len = 1\<rparr> = 1 \<and>
   BitNumber_iter \<lparr>bn_number = 0, bn_len = 1\<rparr> = Inr [0] \<and>
   BitNumber_getitem \<lparr>bn_number = 0, bn_len = 1\<rparr> (PyInt i) =
     (if i = 0 then Inr 0 else Inl index_error)"
  by (simp add: model_defs)

theorem BitNumber_zero_single_bit_witness:
  "(5::int) \<noteq> 0 \<and> BitNumber_getitem \<lparr>bn_number = 0, bn_len = 1\<rparr> (PyInt 5) = Inl index_error"
  using BitNumber_zero_single_bit [of 5] by simp

subsection \<open>The product of 175 and 3\<close>

text \<open>
  C4, as stated, fails: the product \<^verbatim>\<open>GF8Number(175) * 3\<close> is \<open>234\<close>, and its hex
  rendering without prefix is not \<^verbatim>\<open>ae\<close>.
\<close>

theorem GF8Number_175_times_3_hex_not_ae:
  "GF8Number_init (PyInt 175) False =
     Inr \<lparr>gf_class = GF8Number_cls, gf_number = \<lparr>bn_number = 175, bn_len = 8\<rparr>, gf_len = 8\<rparr> \<and>
   GF8Number_mul
       \<lparr>gf_class = GF8Number_cls, gf_number = \<lparr>bn_number = 175, bn_len = 8\<rparr>, gf_len = 8\<rparr>
       (PyInt 3) =
     Inr \<lparr>gf_class = GF8Number_cls, gf_number = \<lparr>bn_number = 234, bn_len = 8\<rparr>, gf_len = 8\<rparr> \<and>
   GF8Number_hex
       \<lparr>gf_class = GF8Number_cls, gf_number = \<lparr>bn_number = 234, bn_len = 8\<rparr>, gf_len = 8\<rparr> []
     \<noteq> ''ae''"
  by (simp add: model_defs)

text \<open>
  C4, amended. The product \<^verbatim>\<open>GF8Number(175) * 3\<close> is \<open>234\<close>; it is rendered as the
  polynomial \<^verbatim>\<open>x7 + x6 + x5 + x3 + x\<close>, its two-digit hex rendering is \<^verbatim>\<open>ea\<close>, and
  \<^verbatim>\<open>0xea\<close> with the default prefix.
\<close>

theorem GF8Number_175_times_3:
  "GF8Number_init (PyInt 175) False =
     Inr \<lparr>gf_class = GF8Number_cls, gf_number = \<lparr>bn_number = 175, bn_len = 8\<rparr>, gf_len = 8\<rparr> \<and>
   GF8Number_mul
       \<lparr>gf_class = GF8Number_cls, gf_number = \<lparr>bn_number = 175, bn_len = 8\<rparr>, gf_len = 8\<rparr>
       (PyInt 3) =
     Inr \<lparr>gf_class = GF8Number_cls, gf_number = \<lparr>bn_number = 234, bn_len = 8\<rparr>, gf_len = 8\<rparr> \<and>
   GFNumber_str
       \<lparr>gf_class = GF8Number_cls, gf_number = \<lparr>bn_number = 234, bn_len = 8\<rparr>, gf_len = 8\<rparr> =
     Inr ''x7 + x6 + x5 + x3 + x'' \<and>
   GF8Number_hex
       \<lparr>gf_class = GF8Number_cls, gf_number = \<lparr>bn_number = 234, bn_len = 8\<rparr>, gf_len = 8\<rparr> []
     = ''ea'' \<and>
   GF8Number_hex
       \<lparr>gf_class = GF8Number_cls, gf_number = \<lparr>bn_number = 234, bn_len = 8\<rparr>, gf_len = 8\<rparr> ''0x''
     = ''0xea''"
  by (simp add: model_defs)

subsection \<open>Bit access\<close>

text \<open>
  C8. For every bit number and every integer index, \<^verbatim>\<open>self[index]\<close> fails with the
  error of the indexer exactly when the index is outside \<open>[0, len(self))\<close>, and otherwise
  returns \<^verbatim>\<open>(number >> index) & 1\<close>. The length is the cached \<^verbatim>\<open>__len\<close>.
\<close>

theorem BitNumber_getitem_bounds:
  "BitNumber_getitem self (PyInt index) =
     (if 0 \<le> index \<and> index < int (BitNumber_len self)
      then Inr (drop_bit (nat index) (bn_number self) AND 1)
      else Inl index_error)"
  by (simp add: BitNumber_getitem_def assert_type_def assert_value_def and_one_eq)

theorem BitNumber_getitem_bounds_witness:
  "BitNumber_init (PyInt 175) = Inr \<lparr>bn_number = 175, bn_len = 8\<rparr> \<and>
   BitNumber_getitem \<lparr>bn_number = 175, bn_len = 8\<rparr> (PyInt 3) = Inr 1 \<and>
   BitNumber_getitem \<lparr>bn_number = 175, bn_len = 8\<rparr> (PyInt 4) = Inr 0 \<and>
   BitNumber_getitem \<lparr>bn_number = 175, bn_len = 8\<rparr> (PyInt 8) = Inl index_error \<and>
   BitNumber_getitem \<lparr>bn_number = 175, bn_len = 8\<rparr> (PyInt (- 1)) = Inl index_error"
proof -
  have "BitNumber_init (PyInt 175) = Inr \<lparr>bn_number = 175, bn_len = 8\<rparr>"
    by (simp add: model_defs)
  moreover have "BitNumber_getitem \<lparr>bn_number = 175, bn_len = 8\<rparr> (PyInt 3) = Inr 1"
    using BitNumber_getitem_bounds [of "\<lparr>bn_number = 175, bn_len = 8\<rparr>" 3]
    by (simp add: BitNumber_len_def)
  moreover have "BitNumber_getitem \<lparr>bn_number = 175, bn_len = 8\<rparr> (PyInt 4) = Inr 0"
    using BitNumber_getitem_bounds [of "\<lparr>bn_number = 175, bn_len = 8\<rparr>" 4]
    by (simp add: BitNumber_len_def)
  moreover have "BitNumber_getitem \<lparr>bn_number = 175, bn_len = 8\<rparr> (PyInt 8) = Inl index_error"
    using BitNumber_getitem_bounds [of "\<lparr>bn_number = 175, bn_len = 8\<rparr>" 8]
    by (simp add: BitNumber_len_def)
  moreover have "BitNumber_getitem \<lparr>bn_number = 175, bn_len = 8\<rparr> (PyInt (- 1)) = Inl index_error"
    using BitNumber_getitem_bounds [of "\<lparr>bn_number = 175, bn_len = 8\<rparr>" "- 1"]
    by (simp add: BitNumber_len_def)
  ultimately show ?thesis by simp
qed

subsection \<open>Addition\<close>

text \<open>
  C7. The sum of \<^verbatim>\<open>GFNumber(a)\<close> and \<^verbatim>\<open>GFNumber(b)\<close> is the object
  \<^verbatim>\<open>GFNumber(a ^ b)\<close>, the bitwise XOR of the two numbers, and so the sum of
  \<^verbatim>\<open>GFNumber(a)\<close> with itself is \<^verbatim>\<open>GFNumber(0)\<close>.
\<close>

theorem GFNumber_add_xor_self_inverse:
  assumes "GFNumber_init GFNumber_cls (PyInt a) = Inr x"
    and "GFNumber_init GFNumber_cls (PyInt b) = Inr y"
  shows "(\<exists>z. GFNumber_add x (PyGFNumber y) = Inr z \<and>
              GFNumber_init GFNumber_cls (PyInt (a XOR b)) = Inr z \<and>
              GFNumber_int z = GFNumber_int x XOR GFNumber_int y) \<and>
         (\<exists>z. GFNumber_add x (PyGFNumber x) = Inr z \<and>
              GFNumber_init GFNumber_cls (PyInt 0) = Inr z \<and> GFNumber_int z = 0)"
proof -
  from assms(1) have a: "0 \<le> a" "x = mk_gf GFNumber_cls a"
    using GFNumber_init_int_Inr by blast+
  from assms(2) have b: "0 \<le> b" "y = mk_gf GFNumber_cls b"
    using GFNumber_init_int_Inr by blast+
  have xy: "GFNumber_add x (PyGFNumber y) = Inr (mk_gf GFNumber_cls (a XOR b))"
    using a b by (intro GFNumber_add_mk) simp_all
  have xx: "GFNumber_add x (PyGFNumber x) = Inr (mk_gf GFNumber_cls (a XOR a))"
    using a by (intro GFNumber_add_mk) simp_all
  have "0 \<le> a XOR b" using a b by simp
  then have i: "GFNumber_init GFNumber_cls (PyInt (a XOR b)) = Inr (mk_gf GFNumber_cls (a XOR b))"
    by (rule GFNumber_init_int)
  have z: "GFNumber_init GFNumber_cls (PyInt 0) = Inr (mk_gf GFNumber_cls 0)"
    by (rule GFNumber_init_int) simp
  show ?thesis
    using xy xx i z a(2) b(2) by (simp add: GFNumber_int_def BitNumber_int_def)
qed

theorem GFNumber_add_xor_self_inverse_witness:
  "GFNumber_init GFNumber_cls (PyInt 175) =
     Inr \<lparr>gf_class = GFNumber_cls, gf_number = \<lparr>bn_number = 175, bn_len = 8\<rparr>, gf_len = 8\<rparr> \<and>
   GFNumber_init GFNumber_cls (PyInt 3) =
     Inr \<lparr>gf_class = GFNumber_cls, gf_number = \<lparr>bn_number = 3, bn_len = 2\<rparr>, gf_len = 2\<rparr> \<and>
   GFNumber_add
     \<lparr>gf_class = GFNumber_cls, gf_number = \<lparr>bn_number = 175, bn_len = 8\<rparr>, gf_len = 8\<rparr>
     (PyGFNumber \<lparr>gf_class = GFNumber_cls, gf_number = \<lparr>bn_number = 3, bn_len = 2\<rparr>, gf_len = 2\<rparr>) =
     Inr \<lparr>gf_class = GFNumber_cls, gf_number = \<lparr>bn_number = 172, bn_len = 8\<rparr>, gf_len = 8\<rparr> \<and>
   GFNumber_add
     \<lparr>gf_class = GFNumber_cls, gf_number = \<lparr>bn_number = 175, bn_len = 8\<rparr>, gf_len = 8\<rparr>
     (PyGFNumber \<lparr>gf_class = GFNumber_cls, gf_number = \<lparr>bn_number = 175, bn_len = 8\<rparr>, gf_len = 8\<rparr>) =
     Inr \<lparr>gf_class = GFNumber_cls, gf_number = \<lparr>bn_number = 0, bn_len = 1\<rparr>, gf_len = 1\<rparr>"
proof -
  have x: "GFNumber_init GFNumber_cls (PyInt 175) =
     Inr \<lparr>gf_class = GFNumber_cls, gf_number = \<lparr>bn_number = 175, bn_len = 8\<rparr>, gf_len = 8\<rparr>"
    by (simp add: model_defs)
  have y: "GFNumber_init GFNumber_cls (PyInt 3) =
     Inr \<lparr>gf_class = GFNumber_cls, gf_number = \<lparr>bn_number = 3, bn_len = 2\<rparr>, gf_len = 2\<rparr>"
    by (simp add: model_defs)
  have i: "GFNumber_init GFNumber_cls (PyInt (175 XOR 3)) =
     Inr \<lparr>gf_class = GFNumber_cls, gf_number = \<lparr>bn_number = 172, bn_len = 8\<rparr>, gf_len = 8\<rparr>"
    by (simp add: model_defs)
  have z: "GFNumber_init GFNumber_cls (PyInt 0) =
     Inr \<lparr>gf_class = GFNumber_cls, gf_number = \<lparr>bn_number = 0, bn_len = 1\<rparr>, gf_len = 1\<rparr>"
    by (simp add: model_defs)
  from GFNumber_add_xor_self_inverse [OF x y] i z x y show ?thesis by auto
qed

subsection \<open>Strict construction\<close>

text \<open>
  What the strict construction does on every input.
  \<^verbatim>\<open>GF8Number(300, assert_shrunk=True)\<close> fails with the error of the strict mode.
  Whenever the construction without the strict mode returns an object whose value
  differs from the input (the reduction changed it), the strict construction raises that
  error. An input below 256 is constructed unchanged in strict mode, and the strict
  construction of every input from 256 on fails, with some error.
\<close>

lemma GF8Number_init_strict:
  "GF8Number_init (PyInt 300) True = Inl shrunk_error \<and>
   (\<forall>n g. GF8Number_init (PyInt n) False = Inr g \<and> GFNumber_int g \<noteq> n \<longrightarrow>
      GF8Number_init (PyInt n) True = Inl shrunk_error) \<and>
   (\<forall>n. 0 \<le> n \<and> n < 256 \<longrightarrow>
      GF8Number_init (PyInt n) True = Inr (mk_gf GF8Number_cls n) \<and>
      GFNumber_int (mk_gf GF8Number_cls n) = n \<and> GFNumber_len (mk_gf GF8Number_cls n) \<le> 8) \<and>
   (\<forall>n. 256 \<le> n \<longrightarrow> (\<exists>e. GF8Number_init (PyInt n) True = Inl e))"
proof (intro conjI allI impI)
  show "GF8Number_init (PyInt 300) True = Inl shrunk_error"
    by (simp add: model_defs)
next
  fix n g
  assume h: "GF8Number_init (PyInt n) False = Inr g \<and> GFNumber_int g \<noteq> n"
  have "\<not> n < 0" using h by (auto simp: GF8Number_init_neg)
  moreover have "\<not> (0 \<le> n \<and> n < 256)"
    using h by (auto simp: GF8Number_init_small GFNumber_int_def BitNumber_int_def)
  ultimately have "256 \<le> n" by linarith
  from GF8Number_init_big_strict [OF this] h
  show "GF8Number_init (PyInt n) True = Inl shrunk_error" by auto
next
  fix n :: int
  assume "0 \<le> n \<and> n < 256"
  then show "GF8Number_init (PyInt n) True = Inr (mk_gf GF8Number_cls n)"
    by (simp add: GF8Number_init_small)
next
  fix n :: int
  show "GFNumber_int (mk_gf GF8Number_cls n) = n"
    by (simp add: GFNumber_int_def BitNumber_int_def)
next
  fix n :: int
  assume "0 \<le> n \<and> n < 256"
  then show "GFNumber_len (mk_gf GF8Number_cls n) \<le> 8"
    using length_digits2_int_le_iff [of n 8] by (simp add: GFNumber_len_def)
next
  fix n :: int
  assume "256 \<le> n"
  from GF8Number_init_big_strict [OF this]
  show "\<exists>e. GF8Number_init (PyInt n) True = Inl e" by auto
qed

lemma GF8Number_init_strict_witness:
  "GF8Number_init (PyInt 300) False =
     Inr \<lparr>gf_class = GF8Number_cls, gf_number = \<lparr>bn_number = 55, bn_len = 6\<rparr>, gf_len = 6\<rparr> \<and>
   GFNumber_int \<lparr>gf_class = GF8Number_cls, gf_number = \<lparr>bn_number = 55, bn_len = 6\<rparr>, gf_len = 6\<rparr>
     \<noteq> 300 \<and>
   GF8Number_init (PyInt 300) True = Inl shrunk_error \<and>
   (0::int) \<le> 175 \<and> (175::int) < 256 \<and>
   GF8Number_init (PyInt 175) True =
     Inr \<lparr>gf_class = GF8Number_cls, gf_number = \<lparr>bn_number = 175, bn_len = 8\<rparr>, gf_len = 8\<rparr> \<and>
   (256::int) \<le> 512 \<and> (\<exists>e. GF8Number_init (PyInt 512) True = Inl e)"
proof -
  have a: "GF8Number_init (PyInt 300) False =
     Inr \<lparr>gf_class = GF8Number_cls, gf_number = \<lparr>bn_number = 55, bn_len = 6\<rparr>, gf_len = 6\<rparr>"
    by (simp add: model_defs)
  have b: "GFNumber_int \<lparr>gf_class = GF8Number_cls, gf_number = \<lparr>bn_number = 55, bn_len = 6\<rparr>, gf_len = 6\<rparr>
     \<noteq> 300"
    by (simp add: model_defs)
  have m: "mk_gf GF8Number_cls 175 =
      \<lparr>gf_class = GF8Number_cls, gf_number = \<lparr>bn_number = 175, bn_len = 8\<rparr>, gf_len = 8\<rparr>"
    by (simp add: mk_gf_def mk_bn_def digits.simps)
  have c: "GF8Number_init (PyInt 300) True = Inl shrunk_error"
    using GF8Number_init_strict a b by blast
  have d: "GF8Number_init (PyInt 175) True = Inr (mk_gf GF8Number_cls 175)"
    using GF8Number_init_strict by simp
  have e: "\<exists>e. GF8Number_init (PyInt 512) True = Inl e"
    using GF8Number_init_strict by simp
  show ?thesis using a b c d e m by simp
qed

text \<open>
  C5. The specification asks that a strict construction whose operand needs reduction
  fails with the error of the strict mode. For the input \<open>512\<close> it fails with another
  error: the object is built with the number \<open>512\<close>, of length 10, the first XOR of the
  reduction scan leaves \<open>54\<close>, of length 6, and reading bit 8 raises the error of the
  indexer inside \<^verbatim>\<open>__shrink\<close>, before \<^verbatim>\<open>__init__\<close> reaches the check of
  \<^verbatim>\<open>assert_shrunk\<close>. The construction without the strict mode raises the same error.
\<close>

theorem GF8Number_init_strict_512_index_error:
  "GFNumber_init GF8Number_cls (PyInt 512) =
     Inr \<lparr>gf_class = GF8Number_cls, gf_number = \<lparr>bn_number = 512, bn_len = 10\<rparr>, gf_len = 10\<rparr> \<and>
   GFNumber_getitem
       \<lparr>gf_class = GF8Number_cls, gf_number = \<lparr>bn_number = 512, bn_len = 10\<rparr>, gf_len = 10\<rparr>
       (PyInt 9) = Inr 1 \<and>
   BitNumber_lshift SHRINK_MODULO (PyInt (9 - int MAX_BITS)) =
     Inr \<lparr>bn_number = 566, bn_len = 10\<rparr> \<and>
   BitNumber_xor \<lparr>bn_number = 512, bn_len = 10\<rparr> (PyBitNumber \<lparr>bn_number = 566, bn_len = 10\<rparr>) =
     Inr \<lparr>bn_number = 54, bn_len = 6\<rparr> \<and>
   GFNumber_getitem
       \<lparr>gf_class = GF8Number_cls, gf_number = \<lparr>bn_number = 54, bn_len = 6\<rparr>, gf_len = 10\<rparr>
       (PyInt 8) = Inl index_error \<and>
   GF8Number_shrink
       \<lparr>gf_class = GF8Number_cls, gf_number = \<lparr>bn_number = 512, bn_len = 10\<rparr>, gf_len = 10\<rparr> =
     Inl index_error \<and>
   GF8Number_init (PyInt 512) True = Inl index_error \<and>
   GF8Number_init (PyInt 512) True \<noteq> Inl shrunk_error \<and>
   GF8Number_init (PyInt 512) False = Inl index_error"
  by (simp add: model_defs)

subsection \<open>Addition of \<^verbatim>\<open>GF8Number\<close> objects\<close>

text \<open>
  C10. \<^verbatim>\<open>GF8Number\<close> does not override \<^verbatim>\<open>__add__\<close>: the sum of two well-formed
  \<^verbatim>\<open>GF8Number\<close> objects is computed by \<^verbatim>\<open>GFNumber.__add__\<close>, with no reduction
  step, and is an object of the plain class \<^verbatim>\<open>GFNumber\<close> whose number is the XOR of
  the operands' numbers. When both operands have length at most 8, so has the sum.
  Every object that \<^verbatim>\<open>GF8Number(n)\<close> returns is well formed and of class
  \<^verbatim>\<open>GF8Number\<close> (lemma \<open>GF8Number_init_wf\<close>).
\<close>

theorem GF8Number_add_plain_closed:
  assumes "wf_gf x" "wf_gf y"
    and "gf_class x = GF8Number_cls" "gf_class y = GF8Number_cls"
    and "GFNumber_len x \<le> MAX_BITS" "GFNumber_len y \<le> MAX_BITS"
  shows "\<exists>z. GFNumber_add x (PyGFNumber y) = Inr z \<and> gf_class z = GFNumber_cls \<and> wf_gf z \<and>
              GFNumber_int z = GFNumber_int x XOR GFNumber_int y \<and>
              GFNumber_len z \<le> MAX_BITS"
proof -
  define a where "a = bn_number (gf_number x)"
  define b where "b = bn_number (gf_number y)"
  have wx: "wf_bn (gf_number x)" and wy: "wf_bn (gf_number y)"
    using assms(1,2) by (simp_all add: wf_gf_def)
  have a: "0 \<le> a" "gf_number x = mk_bn a"
    using wx wf_bn_eq [OF wx] by (simp_all add: wf_bn_def a_def)
  have b: "0 \<le> b" "gf_number y = mk_bn b"
    using wy wf_bn_eq [OF wy] by (simp_all add: wf_bn_def b_def)
  have "gf_len x = length (digits 2 (nat a))" "gf_len y = length (digits 2 (nat b))"
    using assms(1,2) wx wy by (simp_all add: wf_gf_def wf_bn_def a_def b_def)
  then have "length (digits 2 (nat a)) \<le> 8" "length (digits 2 (nat b)) \<le> 8"
    using assms(5,6) by (simp_all add: GFNumber_len_def MAX_BITS_def)
  then have "a < 2 ^ 8" "b < 2 ^ 8"
    using a(1) b(1) length_digits2_int_le_iff [of a 8] length_digits2_int_le_iff [of b 8]
    by simp_all
  with a(1) have "a XOR b < 2 ^ 8" by (intro XOR_upper)
  moreover have ab: "0 \<le> a XOR b" using a(1) b(1) by simp
  ultimately have len: "length (digits 2 (nat (a XOR b))) \<le> 8"
    using length_digits2_int_le_iff [of "a XOR b" 8] by simp
  have add: "GFNumber_add x (PyGFNumber y) = Inr (mk_gf GFNumber_cls (a XOR b))"
    using a b by (intro GFNumber_add_mk)
  have "wf_gf (mk_gf GFNumber_cls (a XOR b))" using ab by (rule wf_gf_mk_gf)
  moreover have "GFNumber_int (mk_gf GFNumber_cls (a XOR b)) = GFNumber_int x XOR GFNumber_int y"
    by (simp add: GFNumber_int_def BitNumber_int_def a_def b_def)
  moreover have "GFNumber_len (mk_gf GFNumber_cls (a XOR b)) \<le> MAX_BITS"
    using len by (simp add: GFNumber_len_def MAX_BITS_def)
  ultimately show ?thesis using add by simp
qed

theorem GF8Number_add_plain_closed_witness:
  "GF8Number_init (PyInt 175) False =
     Inr \<lparr>gf_class = GF8Number_cls, gf_number = \<lparr>bn_number = 175, bn_len = 8\<rparr>, gf_len = 8\<rparr> \<and>
   GF8Number_init (PyInt 3) False =
     Inr \<lparr>gf_class = GF8Number_cls, gf_number = \<lparr>bn_number = 3, bn_len = 2\<rparr>, gf_len = 2\<rparr> \<and>
   (\<exists>z. GFNumber_add
       \<lparr>gf_class = GF8Number_cls, gf_number = \<lparr>bn_number = 175, bn_len = 8\<rparr>, gf_len = 8\<rparr>
       (PyGFNumber
         \<lparr>gf_class = GF8Number_cls, gf_number = \<lparr>bn_number = 3, bn_len = 2\<rparr>, gf_len = 2\<rparr>) = Inr z \<and>
      gf_class z = GFNumber_cls \<and> GFNumber_int z = 172 \<and> GFNumber_len z \<le> MAX_BITS)"
proof -
  let ?x = "\<lparr>gf_class = GF8Number_cls, gf_number = \<lparr>bn_number = 175, bn_len = 8\<rparr>, gf_len = 8\<rparr>"
  let ?y = "\<lparr>gf_class = GF8Number_cls, gf_number = \<lparr>bn_number = 3, bn_len = 2\<rparr>, gf_len = 2\<rparr>"
  have x: "GF8Number_init (PyInt 175) False = Inr ?x" by (simp add: model_defs)
  have y: "GF8Number_init (PyInt 3) False = Inr ?y" by (simp add: model_defs)
  have wx: "wf_gf ?x" using GF8Number_init_wf [OF x] by simp
  have wy: "wf_gf ?y" using GF8Number_init_wf [OF y] by simp
  have lx: "GFNumber_len ?x \<le> MAX_BITS" by (simp add: GFNumber_len_def MAX_BITS_def)
  have ly: "GFNumber_len ?y \<le> MAX_BITS" by (simp add: GFNumber_len_def MAX_BITS_def)
  have "\<exists>z. GFNumber_add ?x (PyGFNumber ?y) = Inr z \<and> gf_class z = GFNumber_cls \<and> wf_gf z \<and>
              GFNumber_int z = GFNumber_int ?x XOR GFNumber_int ?y \<and>
              GFNumber_len z \<le> MAX_BITS"
    using GF8Number_add_plain_closed [OF wx wy _ _ lx ly] by simp
  moreover have "GFNumber_int ?x XOR GFNumber_int ?y = 172"
    by (simp add: GFNumber_int_def BitNumber_int_def)
  ultimately have "\<exists>z. GFNumber_add ?x (PyGFNumber ?y) = Inr z \<and> gf_class z = GFNumber_cls \<and>
      GFNumber_int z = 172 \<and> GFNumber_len z \<le> MAX_BITS"
    by auto
  with x y show ?thesis by simp
qed

subsection \<open>Commutativity of the multiplication\<close>

text \<open>
  C6, as stated, fails: \<^verbatim>\<open>GF8Number(300) * 3\<close> returns a product (the constructor
  reduces 300 to 55), while \<^verbatim>\<open>GF8Number(3) * 300\<close> raises, because \<^verbatim>\<open>__mul__\<close>
  constructs its second operand in strict mode.
\<close>

theorem GF8Number_mul_not_commutative:
  "GF8Number_init (PyInt 300) False =
     Inr \<lparr>gf_class = GF8Number_cls, gf_number = \<lparr>bn_number = 55, bn_len = 6\<rparr>, gf_len = 6\<rparr> \<and>
   GF8Number_init (PyInt 3) False =
     Inr \<lparr>gf_class = GF8Number_cls, gf_number = \<lparr>bn_number = 3, bn_len = 2\<rparr>, gf_len = 2\<rparr> \<and>
   GF8Number_mul
     \<lparr>gf_class = GF8Number_cls, gf_number = \<lparr>bn_number = 55, bn_len = 6\<rparr>, gf_len = 6\<rparr>
     (PyInt 3) =
     Inr \<lparr>gf_class = GF8Number_cls, gf_number = \<lparr>bn_number = 89, bn_len = 7\<rparr>, gf_len = 7\<rparr> \<and>
   GF8Number_mul
     \<lparr>gf_class = GF8Number_cls, gf_number = \<lparr>bn_number = 3, bn_len = 2\<rparr>, gf_len = 2\<rparr>
     (PyInt 300) = Inl shrunk_error \<and>
   GF8Number_mul
     \<lparr>gf_class = GF8Number_cls, gf_number = \<lparr>bn_number = 55, bn_len = 6\<rparr>, gf_len = 6\<rparr>
     (PyInt 3) \<noteq>
   GF8Number_mul
     \<lparr>gf_class = GF8Number_cls, gf_number = \<lparr>bn_number = 3, bn_len = 2\<rparr>, gf_len = 2\<rparr>
     (PyInt 300)"
  by (simp add: model_defs)

text \<open>
  C6, amended. The multiplication of \<^verbatim>\<open>GFNumber\<close> is commutative for all operands the
  constructor accepts: \<^verbatim>\<open>GFNumber(a) * b\<close> and \<^verbatim>\<open>GFNumber(b) * a\<close> return the same
  object. For operands below 256, \<^verbatim>\<open>GF8Number(a) * b\<close> and \<^verbatim>\<open>GF8Number(b) * a\<close>
  have the same outcome.
\<close>

theorem GFNumber_mul_commute:
  "(\<forall>x y. GFNumber_init GFNumber_cls (PyInt a) = Inr x \<and>
          GFNumber_init GFNumber_cls (PyInt b) = Inr y \<longrightarrow>
      (\<exists>z. GFNumber_mul x (PyInt b) = Inr z \<and> GFNumber_mul y (PyInt a) = Inr z)) \<and>
   (\<forall>x y. a < 256 \<and> b < 256 \<and> GF8Number_init (PyInt a) False = Inr x \<and>
          GF8Number_init (PyInt b) False = Inr y \<longrightarrow>
      GF8Number_mul x (PyInt b) = GF8Number_mul y (PyInt a))"
proof (intro conjI allI impI)
  fix x y
  assume h: "GFNumber_init GFNumber_cls (PyInt a) = Inr x \<and>
          GFNumber_init GFNumber_cls (PyInt b) = Inr y"
  then have a: "0 \<le> a" "x = mk_gf GFNumber_cls a" and b: "0 \<le> b" "y = mk_gf GFNumber_cls b"
    using GFNumber_init_int_Inr by blast+
  have "GFNumber_mul x (PyInt b) = Inr (mk_gf GFNumber_cls (clmul a b))"
    using a b(1) by (intro GFNumber_mul_int_eq) simp_all
  moreover have "GFNumber_mul y (PyInt a) = Inr (mk_gf GFNumber_cls (clmul b a))"
    using b a(1) by (intro GFNumber_mul_int_eq) simp_all
  moreover have "clmul a b = clmul b a" using a(1) b(1) by (rule clmul_commute)
  ultimately show "\<exists>z. GFNumber_mul x (PyInt b) = Inr z \<and> GFNumber_mul y (PyInt a) = Inr z"
    by simp
next
  fix x y
  assume h: "a < 256 \<and> b < 256 \<and> GF8Number_init (PyInt a) False = Inr x \<and>
          GF8Number_init (PyInt b) False = Inr y"
  have a0: "0 \<le> a"
  proof (rule ccontr)
    assume "\<not> 0 \<le> a"
    then have "a < 0" by simp
    with h show False by (simp add: GF8Number_init_neg)
  qed
  have b0: "0 \<le> b"
  proof (rule ccontr)
    assume "\<not> 0 \<le> b"
    then have "b < 0" by simp
    with h show False by (simp add: GF8Number_init_neg)
  qed
  from h have "a < 256" "b < 256" by simp_all
  from GF8Number_init_small [OF a0 this(1), of False] h
  have x: "x = mk_gf GF8Number_cls a" by simp
  from GF8Number_init_small [OF b0 \<open>b < 256\<close>, of False] h
  have y: "y = mk_gf GF8Number_cls b" by simp
  have c: "clmul a b = clmul b a" using a0 b0 by (rule clmul_commute)
  have "GF8Number_mul x (PyInt b) =
     (case GF8Number_init (PyGFNumber (mk_gf GFNumber_cls (clmul a b))) False of
        Inl e \<Rightarrow> Inl e
      | Inr result \<Rightarrow>
          (case GF8Number_shrink result of Inl e \<Rightarrow> Inl e | Inr (u, result') \<Rightarrow> Inr result'))"
    using a0 b0 h x by (intro GF8Number_mul_small) simp_all
  moreover have "GF8Number_mul y (PyInt a) =
     (case GF8Number_init (PyGFNumber (mk_gf GFNumber_cls (clmul b a))) False of
        Inl e \<Rightarrow> Inl e
      | Inr result \<Rightarrow>
          (case GF8Number_shrink result of Inl e \<Rightarrow> Inl e | Inr (u, result') \<Rightarrow> Inr result'))"
    using a0 b0 h y by (intro GF8Number_mul_small) simp_all
  ultimately show "GF8Number_mul x (PyInt b) = GF8Number_mul y (PyInt a)"
    by (simp only: c)
qed

theorem GFNumber_mul_commute_witness:
  "GFNumber_init GFNumber_cls (PyInt 175) =
     Inr \<lparr>gf_class = GFNumber_cls, gf_number = \<lparr>bn_number = 175, bn_len = 8\<rparr>, gf_len = 8\<rparr> \<and>
   GFNumber_init GFNumber_cls (PyInt 3) =
     Inr \<lparr>gf_class = GFNumber_cls, gf_number = \<lparr>bn_number = 3, bn_len = 2\<rparr>, gf_len = 2\<rparr> \<and>
   GFNumber_mul
     \<lparr>gf_class = GFNumber_cls, gf_number = \<lparr>bn_number = 3, bn_len = 2\<rparr>, gf_len = 2\<rparr>
     (PyInt 175) =
     Inr \<lparr>gf_class = GFNumber_cls, gf_number = \<lparr>bn_number = 497, bn_len = 9\<rparr>, gf_len = 9\<rparr> \<and>
   (175::int) < 256 \<and> (3::int) < 256 \<and>
   GF8Number_init (PyInt 175) False =
     Inr \<lparr>gf_class = GF8Number_cls, gf_number = \<lparr>bn_number = 175, bn_len = 8\<rparr>, gf_len = 8\<rparr> \<and>
   GF8Number_init (PyInt 3) False =
     Inr \<lparr>gf_class = GF8Number_cls, gf_number = \<lparr>bn_number = 3, bn_len = 2\<rparr>, gf_len = 2\<rparr> \<and>
   GF8Number_mul
     \<lparr>gf_class = GF8Number_cls, gf_number = \<lparr>bn_number = 3, bn_len = 2\<rparr>, gf_len = 2\<rparr>
     (PyInt 175) =
     Inr \<lparr>gf_class = GF8Number_cls, gf_number = \<lparr>bn_number = 234, bn_len = 8\<rparr>, gf_len = 8\<rparr>"
proof -
  let ?x = "\<lparr>gf_class = GFNumber_cls, gf_number = \<lparr>bn_number = 175, bn_len = 8\<rparr>, gf_len = 8\<rparr>"
  let ?y = "\<lparr>gf_class = GFNumber_cls, gf_number = \<lparr>bn_number = 3, bn_len = 2\<rparr>, gf_len = 2\<rparr>"
  let ?x8 = "\<lparr>gf_class = GF8Number_cls, gf_number = \<lparr>bn_number = 175, bn_len = 8\<rparr>, gf_len = 8\<rparr>"
  let ?y8 = "\<lparr>gf_class = GF8Number_cls, gf_number = \<lparr>bn_number = 3, bn_len = 2\<rparr>, gf_len = 2\<rparr>"
  have x: "GFNumber_init GFNumber_cls (PyInt 175) = Inr ?x" by (simp add: model_defs)
  have y: "GFNumber_init GFNumber_cls (PyInt 3) = Inr ?y" by (simp add: model_defs)
  have x8: "GF8Number_init (PyInt 175) False = Inr ?x8" by (simp add: model_defs)
  have y8: "GF8Number_init (PyInt 3) False = Inr ?y8" by (simp add: model_defs)
  have p: "GFNumber_mul ?x (PyInt 3) =
      Inr \<lparr>gf_class = GFNumber_cls, gf_number = \<lparr>bn_number = 497, bn_len = 9\<rparr>, gf_len = 9\<rparr>"
    by (simp add: model_defs)
  have p8: "GF8Number_mul ?x8 (PyInt 3) =
      Inr \<lparr>gf_class = GF8Number_cls, gf_number = \<lparr>bn_number = 234, bn_len = 8\<rparr>, gf_len = 8\<rparr>"
    by (simp add: model_defs)
  from GFNumber_mul_commute [of 175 3] x y
  have "\<exists>z. GFNumber_mul ?x (PyInt 3) = Inr z \<and> GFNumber_mul ?y (PyInt 175) = Inr z"
    by blast
  with p have q: "GFNumber_mul ?y (PyInt 175) =
      Inr \<lparr>gf_class = GFNumber_cls, gf_number = \<lparr>bn_number = 497, bn_len = 9\<rparr>, gf_len = 9\<rparr>"
    by auto
  from GFNumber_mul_commute [of 175 3] x8 y8
  have "GF8Number_mul ?x8 (PyInt 3) = GF8Number_mul ?y8 (PyInt 175)"
    by simp
  with p8 have q8: "GF8Number_mul ?y8 (PyInt 175) =
      Inr \<lparr>gf_class = GF8Number_cls, gf_number = \<lparr>bn_number = 234, bn_len = 8\<rparr>, gf_len = 8\<rparr>"
    by simp
  show ?thesis using x y x8 y8 q q8 by simp
qed

subsection \<open>Rendering as a polynomial\<close>

text \<open>
  C9. The string of \<^verbatim>\<open>GFNumber(a)\<close> is the rendering \<open>poly_render\<close>: the terms of
  the set bits below the length, from the highest to the lowest, joined by \<^verbatim>\<open>" + "\<close>,
  where the term of degree 0 is \<^verbatim>\<open>1\<close>, of degree 1 is \<^verbatim>\<open>x\<close> and of a higher degree
  \<open>i\<close> is \<^verbatim>\<open>x\<close> followed by the decimal digits of \<open>i\<close>. Every set bit of \<open>a\<close> is
  below the length, so no term is left out, and the zero polynomial is rendered as the
  empty string.
\<close>

theorem GFNumber_str_poly_render:
  assumes "GFNumber_init c (PyInt a) = Inr g"
  shows "GFNumber_str g = Inr (poly_render a (GFNumber_len g)) \<and>
         (\<forall>i. bit a i \<longrightarrow> i < GFNumber_len g) \<and>
         (a = 0 \<longrightarrow> GFNumber_str g = Inr [])"
proof -
  from assms have a: "0 \<le> a" "g = mk_gf c a" using GFNumber_init_int_Inr by blast+
  have "\<forall>i. bit a i \<longrightarrow> i < length (digits 2 (nat a))"
    using bit_imp_less_length_digits [OF a(1)] by blast
  then show ?thesis
    by (simp add: a(2) GFNumber_str_mk_gf GFNumber_len_def poly_render_zero)
qed

theorem GFNumber_str_poly_render_witness:
  "GFNumber_init GFNumber_cls (PyInt 175) =
     Inr \<lparr>gf_class = GFNumber_cls, gf_number = \<lparr>bn_number = 175, bn_len = 8\<rparr>, gf_len = 8\<rparr> \<and>
   GFNumber_str
     \<lparr>gf_class = GFNumber_cls, gf_number = \<lparr>bn_number = 175, bn_len = 8\<rparr>, gf_len = 8\<rparr> =
     Inr ''x7 + x5 + x3 + x2 + x + 1'' \<and>
   GFNumber_init GFNumber_cls (PyInt 0) =
     Inr \<lparr>gf_class = GFNumber_cls, gf_number = \<lparr>bn_number = 0, bn_len = 1\<rparr>, gf_len = 1\<rparr> \<and>
   GFNumber_str
     \<lparr>gf_class = GFNumber_cls, gf_number = \<lparr>bn_number = 0, bn_len = 1\<rparr>, gf_len = 1\<rparr> = Inr []"
proof -
  let ?g = "\<lparr>gf_class = GFNumber_cls, gf_number = \<lparr>bn_number = 175, bn_len = 8\<rparr>, gf_len = 8\<rparr>"
  let ?z = "\<lparr>gf_class = GFNumber_cls, gf_number = \<lparr>bn_number = 0, bn_len = 1\<rparr>, gf_len = 1\<rparr>"
  have g: "GFNumber_init GFNumber_cls (PyInt 175) = Inr ?g" by (simp add: model_defs)
  have z: "GFNumber_init GFNumber_cls (PyInt 0) = Inr ?z" by (simp add: model_defs)
  have r: "poly_render 175 8 = ''x7 + x5 + x3 + x2 + x + 1''"
    by (simp add: poly_render_def poly_term_def py_str_def digits.simps digit_char_def upt_rec
        bit_numeral_rec)
  from GFNumber_str_poly_render [OF g] have "GFNumber_str ?g = Inr (poly_render 175 8)"
    by (simp add: GFNumber_len_def)
  with r have s: "GFNumber_str ?g = Inr ''x7 + x5 + x3 + x2 + x + 1''" by simp
  from GFNumber_str_poly_render [OF z] have t: "GFNumber_str ?z = Inr []" by blast
  show ?thesis using g z s t by simp
qed

end
